theory Spec2Isabelle
  imports Complex_Main
begin

text \<open>
  This theory models the module \<open>subconscious/column.py\<close>: the constructors of
  \<open>Column\<close>, \<open>Integer\<close> and \<open>DecimalColumn\<close>, \<open>Integer.auto_generate\<close>, and the two
  methods \<open>get_redis_value\<close> and \<open>get_python_value\<close> of \<open>DecimalColumn\<close>, together with
  the part of Python's \<open>decimal\<close> arithmetic that these methods run. Exceptions are
  values of the type \<open>error\<close>: a function that can raise returns \<open>Inl\<close> of the
  exception or \<open>Inr\<close> of its result.
\<close>

section \<open>Python values that reach the column constructors\<close>

text \<open>
  The constructor arguments \<open>primary_key\<close>, \<open>composite_key\<close>, \<open>index\<close>, \<open>required\<close>
  and \<open>sort\<close> are ordinary Python objects. The code looks at them in two ways only:
  by truthiness (\<open>if primary_key and composite_key\<close>) and by identity with the
  singleton \<open>True\<close> (\<open>primary_key is True\<close>).
\<close>

datatype pyobj = PyNone | PyBool bool | PyInt int | PyStr string

fun truthy :: "pyobj \<Rightarrow> bool" where
  "truthy PyNone = False"
| "truthy (PyBool b) = b"
| "truthy (PyInt n) = (n \<noteq> 0)"
| "truthy (PyStr s) = (s \<noteq> [])"

definition is_True :: "pyobj \<Rightarrow> bool" where
  "is_True x = (x = PyBool True)"

text \<open>The \<open>type\<close> argument: the three supported classes, or anything else.\<close>

datatype pytype = TStr | TInt | TDecimal | TOther string

section \<open>Errors\<close>

text \<open>
  \<open>InvalidColumnDefinition\<close> is the one exception class of the module; its three
  messages are kept apart. The other constructors are the built-in exceptions
  that the modelled paths can raise, a failure of the external counter, and an
  exception that an enumeration's own code raises while its values are read.
\<close>

datatype err_msg =
    Bad_Field_Type pytype
  | Primary_And_Composite
  | Not_EnumMeta_Instance pyobj

datatype error =
    InvalidColumnDefinition err_msg
  | AttributeError
  | TypeError
  | ValueError
  | OverflowError
  | InvalidOperation
  | DivisionByZero
  | Overflow
  | ServiceFailure string
  | EnumFailure string

section \<open>The \<open>enum\<close> argument\<close>

text \<open>
  The \<open>enum\<close> argument is either an instance of \<open>EnumMeta\<close> (an enumeration class) or
  some other object. The constructor does three things with an enumeration class:
  it tests its truthiness, it evaluates the comprehension \<open>[x.value for x in enum]\<close>,
  and it builds a set from the resulting list. So an enumeration class is given by

     \<^item> its truth value: \<open>EnumMeta.__bool__\<close> answers \<open>True\<close> for every class, also one
       without members, but a metaclass derived from \<open>EnumMeta\<close> may answer otherwise;

     \<^item> the outcome of the comprehension: the list of the values of the members that
       iterating the class yields, in order, or an exception of the enumeration's
       own code (an overridden \<open>__iter__\<close> or \<open>value\<close>), named by a string. Iteration
       is the interpreter's: it leaves out aliases, and for a \<open>Flag\<close> class on
       Python 3.11 and later the members that are not a single bit.

  A member's value is any object, hashable (as strings, numbers and tuples of them
  are) or not (as lists, dicts and sets are). Hashable values are of type \<open>'v\<close>, two
  of them equal in HOL exactly when a Python set takes them for the same element.
\<close>

datatype 'v enum_value = Hashable 'v | Unhashable

datatype 'v enum_arg = NotEnum pyobj | EnumMeta bool "string + 'v enum_value list"

fun enum_truthy :: "'v enum_arg \<Rightarrow> bool" where
  "enum_truthy (NotEnum obj) = truthy obj"
| "enum_truthy (EnumMeta truth vals) = truth"

text \<open>
  \<open>set(xs)\<close> on a list: the elements are hashed in order, and the first unhashable
  one raises \<open>TypeError\<close>.
\<close>

fun py_set :: "'v enum_value list \<Rightarrow> error + 'v set" where
  "py_set [] = Inr {}"
| "py_set (Unhashable # xs) = Inl TypeError"
| "py_set (Hashable v # xs) =
     (case py_set xs of Inl err \<Rightarrow> Inl err | Inr S \<Rightarrow> Inr (insert v S))"

section \<open>\<open>Column.__init__\<close>\<close>

text \<open>
  The attributes that \<open>__init__\<close> sets. \<open>name\<close> is not set by the constructor
  (the owning model assigns it later), so it starts out absent.
\<close>

record 'v column =
  field_type :: pytype
  primary :: bool
  composite :: bool
  sorted_flag :: bool
  indexed :: bool
  required :: bool
  enum_attr :: "'v enum_arg"
  enum_choices :: "'v set"
  name :: "string option"

definition Column_init ::
  "pytype \<Rightarrow> pyobj \<Rightarrow> pyobj \<Rightarrow> pyobj \<Rightarrow> pyobj \<Rightarrow> 'v enum_arg \<Rightarrow> pyobj \<Rightarrow> error + 'v column" where
  "Column_init ty primary_key composite_key index required_arg enum_a sort_arg =
    (if ty \<notin> {TStr, TInt, TDecimal} then
       Inl (InvalidColumnDefinition (Bad_Field_Type ty))
     else if truthy primary_key \<and> truthy composite_key then
       Inl (InvalidColumnDefinition Primary_And_Composite)
     else
       let self_primary = is_True primary_key;
           self_composite = is_True composite_key;
           self_sorted = is_True sort_arg;
           self_indexed = (is_True index \<or> self_composite);
           self_required = (is_True required_arg \<or> self_primary \<or> self_composite);
           self = \<lparr> field_type = ty, primary = self_primary, composite = self_composite,
                    sorted_flag = self_sorted, indexed = self_indexed,
                    required = self_required, enum_attr = enum_a,
                    enum_choices = {}, name = None \<rparr>
       in if enum_truthy enum_a then
            (case enum_a of
               NotEnum obj \<Rightarrow> Inl (InvalidColumnDefinition (Not_EnumMeta_Instance obj))
             | EnumMeta truth vals \<Rightarrow>
                 (case vals of
                    Inl msg \<Rightarrow> Inl (EnumFailure msg)
                  | Inr xs \<Rightarrow>
                      (case py_set xs of
                         Inl err \<Rightarrow> Inl err
                       | Inr S \<Rightarrow> Inr (self \<lparr> enum_choices := S \<rparr>))))
          else Inr (self \<lparr> enum_choices := {} \<rparr>))"

section \<open>\<open>Integer\<close> columns and \<open>auto_generate\<close>\<close>

text \<open>
  \<open>Integer.__init__\<close> calls \<open>Column.__init__\<close> with \<open>type=int\<close> and then stores
  \<open>auto_increment\<close> as it was given.
\<close>

record 'v integer_column = "'v column" +
  auto_increment :: pyobj

definition Integer_init ::
  "pyobj \<Rightarrow> pyobj \<Rightarrow> pyobj \<Rightarrow> pyobj \<Rightarrow> 'v enum_arg \<Rightarrow> pyobj \<Rightarrow> pyobj \<Rightarrow> error + 'v integer_column" where
  "Integer_init primary_key composite_key index required_arg enum_a sort_arg auto_increment_arg =
    (case Column_init TInt primary_key composite_key index required_arg enum_a sort_arg of
       Inl err \<Rightarrow> Inl err
     | Inr self \<Rightarrow> Inr (column.extend self (integer_column.fields auto_increment_arg)))"

text \<open>
  The counter service is an external collaborator: \<open>db.incr(key)\<close> takes a key and
  answers with an integer or fails, and may change the service's state. It is a
  parameter of the model: a function from the key and the state before the call to the
  answer and the state after it. \<open>await\<close> hands the answer (or the exception) of the
  awaited call to the caller, so the coroutine is modelled by the call itself.

  \<open>auto_generate\<close> formats the key from \<open>model.key_prefix()\<close> (given here as the string it
  returns) and \<open>self.name\<close>. Reading \<open>self.name\<close> before the owning model has set it
  raises \<open>AttributeError\<close>, and then no request is made.
\<close>

type_synonym 'db counter_service = "string \<Rightarrow> 'db \<Rightarrow> (error + int) \<times> 'db"

definition auto_generate ::
  "('v, 'z) integer_column_scheme \<Rightarrow> 'db counter_service \<Rightarrow> 'db \<Rightarrow> string \<Rightarrow> (error + int) \<times> 'db" where
  "auto_generate self incr db key_prefix =
     (case name self of
        None \<Rightarrow> (Inl AttributeError, db)
      | Some field_name \<Rightarrow> incr (''auto:'' @ key_prefix @ '':'' @ field_name) db)"

text \<open>A caller that asks for \<open>k\<close> values in a row, each call seeing the state the previous one left.\<close>

fun generate_many ::
  "nat \<Rightarrow> ('v, 'z) integer_column_scheme \<Rightarrow> 'db counter_service \<Rightarrow> 'db \<Rightarrow> string
     \<Rightarrow> (error + int) list \<times> 'db" where
  "generate_many 0 self incr db key_prefix = ([], db)"
| "generate_many (Suc k) self incr db key_prefix =
     (let (r, db') = auto_generate self incr db key_prefix;
          (rs, db'') = generate_many k self incr db' key_prefix
      in (r # rs, db''))"

text \<open>
  A reference counter service for the examples: one integer per key, starting wherever
  the state says, a log of the keys requested, and a switch that makes every request
  fail. A request is logged whether it succeeds or not.
\<close>

record counter_db =
  counters :: "string \<Rightarrow> int"
  requests :: "string list"
  available :: bool

definition counter_incr :: "counter_db counter_service" where
  "counter_incr key db =
     (if available db
      then (Inr (counters db key + 1),
            db \<lparr> counters := (counters db)(key := counters db key + 1),
                 requests := requests db @ [key] \<rparr>)
      else (Inl (ServiceFailure ''counter unavailable''),
            db \<lparr> requests := requests db @ [key] \<rparr>))"

text \<open>
  The column \<open>Integer(auto_increment=True)\<close> after the owning model has named it \<open>id\<close>,
  and a counter service that is up, has counted nothing and has seen no request.
\<close>

definition example_id_column :: "nat integer_column" where
  "example_id_column =
     \<lparr> field_type = TInt, primary = False, composite = False, sorted_flag = False,
       indexed = False, required = False, enum_attr = NotEnum PyNone,
       enum_choices = {}, name = Some ''id'', auto_increment = PyBool True \<rparr>"

definition fresh_counter :: counter_db where
  "fresh_counter = \<lparr> counters = (\<lambda>key. 0), requests = [], available = True \<rparr>"

section \<open>\<open>Decimal\<close> arithmetic\<close>

text \<open>
  The two methods of \<open>DecimalColumn\<close> compute with Python's \<open>decimal.Decimal\<close>:
  construction from a string and from an \<open>int\<close>, \<open>*\<close>, \<open>/\<close> and \<open>int()\<close>. The
  module never sets a context, so the arithmetic runs in the default one: precision 28,
  rounding \<open>ROUND_HALF_EVEN\<close>, exponent limits \<open>Emax = 999999\<close> and \<open>Emin = -999999\<close>,
  no clamping, and the traps \<open>InvalidOperation\<close>, \<open>DivisionByZero\<close> and \<open>Overflow\<close>
  (the other signals only set flags). The definitions below follow the operations of the
  \<open>decimal\<close> module in that context.

  A finite decimal is a sign (\<open>True\<close> for negative), a coefficient and an exponent, and
  stands for \<open>\<plusminus> coefficient * 10 ^ exponent\<close>; a NaN carries its sign, whether it is
  signaling, and its payload.
\<close>

datatype decimal =
    Finite bool nat int
  | Infinity bool
  | NaN bool bool nat

definition prec :: nat where
  "prec = 28"

definition Emax :: int where
  "Emax = 999999"

definition Emin :: int where
  "Emin = - 999999"

definition Etiny :: int where
  "Etiny = Emin - int prec + 1"

definition Etop :: int where
  "Etop = Emax - int prec + 1"

text \<open>\<open>ndigits c\<close> is \<open>len(str(c))\<close>, the number of digits of the coefficient.\<close>

fun ndigits :: "nat \<Rightarrow> nat" where
  "ndigits n = (if n < 10 then 1 else Suc (ndigits (n div 10)))"

declare ndigits.simps [simp del]

text \<open>
  \<open>round_half_even c k\<close> is the coefficient \<open>c\<close> with its last \<open>k\<close> digits rounded
  away, ties going to the even neighbour.
\<close>

definition round_half_even :: "nat \<Rightarrow> nat \<Rightarrow> nat" where
  "round_half_even c k =
     (let q = c div 10 ^ k; r = c mod 10 ^ k
      in if 2 * r > 10 ^ k \<or> (2 * r = 10 ^ k \<and> odd q) then q + 1 else q)"

text \<open>
  \<open>Decimal._fix\<close> rounds a result to the context: a zero keeps its value and has its
  exponent moved into the range; a coefficient of more than \<open>prec\<close> digits is
  rounded to \<open>prec\<close> digits (and a carry to \<open>prec + 1\<close> digits drops its last zero);
  a result whose adjusted exponent exceeds \<open>Emax\<close> raises \<open>Overflow\<close>; a result below
  the subnormal limit is rounded to the exponent \<open>Etiny\<close>. A NaN keeps at most \<open>prec\<close>
  digits of payload.
\<close>

definition fix_nan :: "bool \<Rightarrow> bool \<Rightarrow> nat \<Rightarrow> decimal" where
  "fix_nan sg signaling payload = NaN sg signaling (payload mod 10 ^ prec)"

fun dec_fix :: "decimal \<Rightarrow> error + decimal" where
  "dec_fix (NaN sg signaling payload) = Inr (fix_nan sg signaling payload)"
| "dec_fix (Infinity sg) = Inr (Infinity sg)"
| "dec_fix (Finite sg c e) =
     (if c = 0 then Inr (Finite sg 0 (min (max e Etiny) Emax))
      else
        let exp_min = int (ndigits c) + e - int prec in
        if exp_min > Etop then Inl Overflow
        else
          let exp_min = (if exp_min < Etiny then Etiny else exp_min) in
          if e < exp_min then
            let coeff = round_half_even c (nat (exp_min - e)) in
            if ndigits coeff > prec then
              (if exp_min + 1 > Etop then Inl Overflow
               else Inr (Finite sg (coeff div 10) (exp_min + 1)))
            else Inr (Finite sg coeff exp_min)
          else Inr (Finite sg c e))"

text \<open>
  \<open>Decimal._check_nans\<close>: a signaling NaN operand raises \<open>InvalidOperation\<close>, otherwise
  the first quiet NaN operand is the result; \<open>None\<close> when neither operand is a NaN.
  \<open>is_zero\<close> is \<open>not self\<close>: true for a finite zero only.
\<close>

fun dec_sign :: "decimal \<Rightarrow> bool" where
  "dec_sign (Finite sg c e) = sg"
| "dec_sign (Infinity sg) = sg"
| "dec_sign (NaN sg signaling payload) = sg"

fun is_zero :: "decimal \<Rightarrow> bool" where
  "is_zero (Finite sg c e) = (c = 0)"
| "is_zero d = False"

fun check_nans :: "decimal \<Rightarrow> decimal \<Rightarrow> (error + decimal) option" where
  "check_nans (NaN sg True p) other = Some (Inl InvalidOperation)"
| "check_nans (NaN sg False p) (NaN sg' True p') = Some (Inl InvalidOperation)"
| "check_nans (NaN sg False p) other = Some (Inr (fix_nan sg False p))"
| "check_nans self (NaN sg' True p') = Some (Inl InvalidOperation)"
| "check_nans self (NaN sg' False p') = Some (Inr (fix_nan sg' False p'))"
| "check_nans self other = None"

text \<open>\<open>Decimal.__mul__\<close>.\<close>

fun mul_nonnan :: "decimal \<Rightarrow> decimal \<Rightarrow> error + decimal" where
  "mul_nonnan (Finite s1 c1 e1) (Finite s2 c2 e2) = dec_fix (Finite (s1 \<noteq> s2) (c1 * c2) (e1 + e2))"
| "mul_nonnan (Infinity s1) other =
     (if is_zero other then Inl InvalidOperation else Inr (Infinity (s1 \<noteq> dec_sign other)))"
| "mul_nonnan self other =
     (if is_zero self then Inl InvalidOperation else Inr (Infinity (dec_sign self \<noteq> dec_sign other)))"

definition dec_mul :: "decimal \<Rightarrow> decimal \<Rightarrow> error + decimal" where
  "dec_mul self other =
     (case check_nans self other of Some ans \<Rightarrow> ans | None \<Rightarrow> mul_nonnan self other)"

text \<open>
  \<open>Decimal.__truediv__\<close>. For finite non-zero operands the dividend is scaled so that the
  integer quotient has \<open>prec + 1\<close> digits or more; an inexact quotient gets a sticky last
  digit, an exact one is brought as close to the ideal exponent as its trailing zeros
  allow (the \<open>while\<close> loop, here \<open>strip_zeros\<close>); then the result is rounded by \<open>_fix\<close>.
\<close>

function strip_zeros :: "nat \<Rightarrow> int \<Rightarrow> int \<Rightarrow> nat \<times> int" where
  "strip_zeros coeff expn ideal_exp =
     (if expn < ideal_exp \<and> coeff mod 10 = 0
      then strip_zeros (coeff div 10) (expn + 1) ideal_exp
      else (coeff, expn))"
  by pat_completeness auto
termination
  by (relation "measure (\<lambda>(coeff, expn, ideal_exp). nat (ideal_exp - expn))") auto

declare strip_zeros.simps [simp del]

definition div_finite :: "bool \<Rightarrow> nat \<Rightarrow> int \<Rightarrow> nat \<Rightarrow> int \<Rightarrow> error + decimal" where
  "div_finite sg c1 e1 c2 e2 =
     (if c2 = 0 then (if c1 = 0 then Inl InvalidOperation else Inl DivisionByZero)
      else if c1 = 0 then dec_fix (Finite sg 0 (e1 - e2))
      else
        let shift = int (ndigits c2) - int (ndigits c1) + int prec + 1;
            expn = e1 - e2 - shift;
            (coeff, remainder) =
               (if shift \<ge> 0
                then ((c1 * 10 ^ nat shift) div c2, (c1 * 10 ^ nat shift) mod c2)
                else (c1 div (c2 * 10 ^ nat (- shift)), c1 mod (c2 * 10 ^ nat (- shift))));
            (coeff, expn) =
               (if remainder \<noteq> 0
                then ((if coeff mod 5 = 0 then coeff + 1 else coeff), expn)
                else strip_zeros coeff expn (e1 - e2))
        in dec_fix (Finite sg coeff expn))"

fun div_nonnan :: "decimal \<Rightarrow> decimal \<Rightarrow> error + decimal" where
  "div_nonnan (Finite s1 c1 e1) (Finite s2 c2 e2) = div_finite (s1 \<noteq> s2) c1 e1 c2 e2"
| "div_nonnan (Infinity s1) (Infinity s2) = Inl InvalidOperation"
| "div_nonnan (Infinity s1) other = Inr (Infinity (s1 \<noteq> dec_sign other))"
| "div_nonnan self other = Inr (Finite (dec_sign self \<noteq> dec_sign other) 0 Etiny)"

definition dec_truediv :: "decimal \<Rightarrow> decimal \<Rightarrow> error + decimal" where
  "dec_truediv self other =
     (case check_nans self other of Some ans \<Rightarrow> ans | None \<Rightarrow> div_nonnan self other)"

text \<open>\<open>Decimal.__int__\<close> truncates towards zero; \<open>Decimal(n)\<close> for an \<open>int\<close> is exact.\<close>

fun dec_int :: "decimal \<Rightarrow> error + int" where
  "dec_int (NaN sg signaling payload) = Inl ValueError"
| "dec_int (Infinity sg) = Inl OverflowError"
| "dec_int (Finite sg c e) =
     (let s = (if sg then - 1 else 1)
      in if e \<ge> 0 then Inr (s * int c * 10 ^ nat e)
         else Inr (s * int (c div 10 ^ nat (- e))))"

definition dec_of_int :: "int \<Rightarrow> decimal" where
  "dec_of_int n = Finite (n < 0) (nat \<bar>n\<bar>) 0"

section \<open>Strings: \<open>str\<close> of an \<open>int\<close> and \<open>Decimal\<close> of a string\<close>

text \<open>
  \<open>str(n)\<close> for an \<open>int\<close>: a minus sign for a negative number, then the decimal digits
  without leading zeros. A \<open>char\<close> stands for the code point of the same number.
\<close>

definition digit_char :: "nat \<Rightarrow> char" where
  "digit_char d = char_of (48 + d)"

fun digits_of_nat :: "nat \<Rightarrow> string" where
  "digits_of_nat n =
     (if n < 10 then [digit_char n] else digits_of_nat (n div 10) @ [digit_char (n mod 10)])"

declare digits_of_nat.simps [simp del]

definition str_int :: "int \<Rightarrow> string" where
  "str_int n = (if n < 0 then CHR ''-'' # digits_of_nat (nat (- n)) else digits_of_nat (nat n))"

text \<open>
  \<open>Decimal(s)\<close> for a string strips surrounding whitespace, removes underscores, and
  matches the rest against the grammar of the module: an optional sign, then either a
  number (digits with an optional fractional part and at least one digit in all,
  and an optional exponent \<open>E\<close>, sign, digits), or \<open>Inf\<close> / \<open>Infinity\<close>, or \<open>NaN\<close> / \<open>sNaN\<close>
  with optional payload digits; letters match in either case. Anything else raises
  \<open>InvalidOperation\<close>.
\<close>

definition is_digit :: "char \<Rightarrow> bool" where
  "is_digit c = (48 \<le> (of_char c :: nat) \<and> (of_char c :: nat) \<le> 57)"

definition digit_val :: "char \<Rightarrow> nat" where
  "digit_val c = of_char c - 48"

definition nat_of_digits :: "string \<Rightarrow> nat" where
  "nat_of_digits ds = foldl (\<lambda>a c. 10 * a + digit_val c) 0 ds"

definition is_space :: "char \<Rightarrow> bool" where
  "is_space c = ((of_char c :: nat) \<in> {9, 10, 11, 12, 13, 28, 29, 30, 31, 32, 133, 160})"

definition strip :: "string \<Rightarrow> string" where
  "strip s = rev (dropWhile is_space (rev (dropWhile is_space s)))"

definition lower :: "char \<Rightarrow> char" where
  "lower c = (if 65 \<le> (of_char c :: nat) \<and> (of_char c :: nat) \<le> 90
              then char_of (of_char c + 32 :: nat) else c)"

definition split_sign :: "string \<Rightarrow> bool \<times> string" where
  "split_sign s =
     (case s of
        [] \<Rightarrow> (False, [])
      | c # t \<Rightarrow> if c = CHR ''-'' then (True, t) else if c = CHR ''+'' then (False, t) else (False, s))"

definition parse_exp :: "string \<Rightarrow> int option" where
  "parse_exp s =
     (case s of
        [] \<Rightarrow> Some 0
      | c # t \<Rightarrow>
          if lower c \<noteq> CHR ''e'' then None
          else
            let (neg, ds) = split_sign t in
            if ds \<noteq> [] \<and> list_all is_digit ds
            then Some (if neg then - int (nat_of_digits ds) else int (nat_of_digits ds))
            else None)"

definition parse_number :: "bool \<Rightarrow> string \<Rightarrow> decimal option" where
  "parse_number sg s =
     (let intpart = takeWhile is_digit s;
          rest = dropWhile is_digit s;
          (fracpart, rest) =
             (case rest of
                [] \<Rightarrow> ([], [])
              | c # t \<Rightarrow> if c = CHR ''.'' then (takeWhile is_digit t, dropWhile is_digit t)
                         else ([], rest))
      in if intpart = [] \<and> fracpart = [] then None
         else
           (case parse_exp rest of
              None \<Rightarrow> None
            | Some ex \<Rightarrow>
                Some (Finite sg (nat_of_digits (intpart @ fracpart)) (ex - int (length fracpart)))))"

definition parse_special :: "bool \<Rightarrow> string \<Rightarrow> decimal option" where
  "parse_special sg s =
     (if s = ''inf'' \<or> s = ''infinity'' then Some (Infinity sg)
      else
        let (signaling, rest) =
              (case s of [] \<Rightarrow> (False, [])
               | c # t \<Rightarrow> if c = CHR ''s'' then (True, t) else (False, s))
        in if take 3 rest = ''nan'' \<and> list_all is_digit (drop 3 rest)
           then Some (NaN sg signaling (nat_of_digits (drop 3 rest)))
           else None)"

definition Decimal_of_str :: "string \<Rightarrow> error + decimal" where
  "Decimal_of_str s =
     (let (sg, body) = split_sign (filter (\<lambda>c. c \<noteq> CHR ''_'') (strip s))
      in case parse_number sg body of
           Some d \<Rightarrow> Inr d
         | None \<Rightarrow>
             (case parse_special sg (map lower body) of
                Some d \<Rightarrow> Inr d
              | None \<Rightarrow> Inl InvalidOperation))"

section \<open>\<open>DecimalColumn\<close>\<close>

record 'v decimal_column = "'v column" +
  decimal_places :: int

text \<open>
  The signature is \<open>__init__(self, decimal_places=10, *kwargs)\<close>: with one star,
  \<open>kwargs\<close> is the tuple of the extra positional arguments, and the constructor takes
  no keyword other than \<open>decimal_places\<close>. A call with any other keyword is rejected
  with \<open>TypeError\<close> before the body runs. In the body, the first statement
  \<open>kwargs.pop('type', None)\<close> looks up \<open>pop\<close> on a tuple, whose only methods are
  \<open>count\<close> and \<open>index\<close>; the statements after it (the item assignment
  \<open>kwargs['type'] = Decimal\<close>, which a tuple rejects with \<open>TypeError\<close>, the assignment of
  \<open>self.decimal_places\<close> and the call of \<open>Column.__init__\<close>) are reached only if that
  lookup succeeds.
\<close>

definition tuple_getattr :: "pyobj list \<Rightarrow> string \<Rightarrow> error + unit" where
  "tuple_getattr t attr = (if attr \<in> {''count'', ''index''} then Inr () else Inl AttributeError)"

definition DecimalColumn_init ::
  "int \<Rightarrow> pyobj list \<Rightarrow> (string \<times> pyobj) list \<Rightarrow> error + 'v decimal_column" where
  "DecimalColumn_init decimal_places_arg kwargs keywords =
     (if keywords \<noteq> [] then Inl TypeError
      else
        (case tuple_getattr kwargs ''pop'' of
           Inl err \<Rightarrow> Inl err
         | Inr u \<Rightarrow> Inl TypeError))"

text \<open>
  The descriptor that \<open>DecimalColumn(decimal_places=dp)\<close> is written to build: what
  \<open>Column.__init__\<close> gives for \<open>type=Decimal\<close> with every other argument left at its default,
  with the scale stored beside it. The two methods below read \<open>decimal_places\<close> only.
\<close>

definition decimal_descriptor :: "int \<Rightarrow> nat decimal_column" where
  "decimal_descriptor dp =
     \<lparr> field_type = TDecimal, primary = False, composite = False, sorted_flag = False,
       indexed = False, required = False, enum_attr = NotEnum PyNone,
       enum_choices = {}, name = None, decimal_places = dp \<rparr>"

text \<open>
  The argument of \<open>get_redis_value\<close> is a \<open>Decimal\<close> or something else; anything else is
  turned into text by \<open>str\<close> and parsed (\<open>Decimal(str(decimal_value))\<close>), so it is given
  here by that text.
\<close>

datatype pyvalue = DecimalValue decimal | OtherValue string

definition to_decimal :: "pyvalue \<Rightarrow> error + decimal" where
  "to_decimal decimal_value =
     (case decimal_value of
        DecimalValue d \<Rightarrow> Inr d
      | OtherValue s \<Rightarrow> Decimal_of_str s)"

text \<open>
  \<open>10**self.decimal_places\<close> is an \<open>int\<close> for a non-negative scale, and is converted to a
  \<open>Decimal\<close> exactly by the arithmetic operators. For a negative scale it is a \<open>float\<close>,
  and \<open>Decimal\<close> arithmetic with a \<open>float\<close> operand raises \<open>TypeError\<close>.
\<close>

definition get_redis_value :: "('v, 'z) decimal_column_scheme \<Rightarrow> pyvalue \<Rightarrow> error + string" where
  "get_redis_value self decimal_value =
     (case to_decimal decimal_value of
        Inl err \<Rightarrow> Inl err
      | Inr d \<Rightarrow>
          if decimal_places self < 0 then Inl TypeError
          else
            (case dec_mul d (dec_of_int (10 ^ nat (decimal_places self))) of
               Inl err \<Rightarrow> Inl err
             | Inr p \<Rightarrow>
                 (case dec_int p of
                    Inl err \<Rightarrow> Inl err
                  | Inr n \<Rightarrow> Inr (str_int n))))"

definition get_python_value :: "('v, 'z) decimal_column_scheme \<Rightarrow> string \<Rightarrow> error + decimal" where
  "get_python_value self redis_value =
     (case Decimal_of_str redis_value of
        Inl err \<Rightarrow> Inl err
      | Inr d \<Rightarrow>
          if decimal_places self < 0 then Inl TypeError
          else dec_truediv d (dec_of_int (10 ^ nat (decimal_places self))))"

section \<open>Reading decimals as numbers\<close>

text \<open>
  These definitions are not part of the program: they say what the claims mean.
  \<open>dec_val\<close> is the number a finite decimal stands for (it is used on finite decimals
  only); two finite decimals are equal for Python's \<open>==\<close> exactly when they stand for the
  same number. \<open>trunc\<close> truncates a real number towards zero. \<open>frac_digits_le s v\<close>
  says that \<open>v\<close> has at most \<open>s\<close> fractional digits, that is, \<open>v * 10 ^ s\<close> is an
  integer.
\<close>

fun dec_val :: "decimal \<Rightarrow> real" where
  "dec_val (Finite sg c e) = (if sg then - 1 else 1) * real c * 10 powi e"
| "dec_val d = 0"

fun frac_digits_le :: "nat \<Rightarrow> decimal \<Rightarrow> bool" where
  "frac_digits_le s (Finite sg c e) = (0 \<le> e + int s \<or> 10 ^ nat (- (e + int s)) dvd c)"
| "frac_digits_le s d = False"

definition trunc :: "real \<Rightarrow> int" where
  "trunc x = (if 0 \<le> x then \<lfloor>x\<rfloor> else \<lceil>x\<rceil>)"

section \<open>Properties of \<open>Column.__init__\<close>\<close>

lemma py_set_hashable:
  "Unhashable \<notin> set xs \<Longrightarrow> py_set xs = Inr {v. Hashable v \<in> set xs}"
proof (induction xs)
  case Nil
  show ?case by simp
next
  case (Cons x xs)
  show ?case
  proof (cases x)
    case (Hashable v)
    with Cons have "py_set xs = Inr {v. Hashable v \<in> set xs}" by simp
    with Hashable show ?thesis by auto
  next
    case Unhashable
    with Cons.prems show ?thesis by simp
  qed
qed

lemma py_set_unhashable:
  "Unhashable \<in> set xs \<Longrightarrow> py_set xs = Inl TypeError"
proof (induction xs)
  case Nil
  then show ?case by simp
next
  case (Cons x xs)
  show ?case
  proof (cases x)
    case (Hashable v)
    with Cons have "py_set xs = Inl TypeError" by simp
    with Hashable show ?thesis by simp
  next
    case Unhashable
    then show ?thesis by simp
  qed
qed

lemma py_set_Inl:
  "py_set xs = Inl err \<Longrightarrow> err = TypeError"
  using py_set_hashable [of xs] py_set_unhashable [of xs] by (cases "Unhashable \<in> set xs") auto

lemma Column_init_Inr_iff:
  "(\<exists>c. Column_init ty pk ck idx req en srt = Inr (c :: 'v column)) \<longleftrightarrow>
     ty \<in> {TStr, TInt, TDecimal} \<and> \<not> (truthy pk \<and> truthy ck) \<and>
     (\<forall>obj. en = NotEnum obj \<longrightarrow> \<not> truthy obj) \<and>
     (\<forall>vals. en = EnumMeta True vals \<longrightarrow> (\<exists>xs. vals = Inr xs \<and> Unhashable \<notin> set xs))"
proof (cases en)
  case (NotEnum obj)
  then show ?thesis by (auto simp: Column_init_def Let_def)
next
  case (EnumMeta truth vals)
  show ?thesis
  proof (cases vals)
    case (Inl msg)
    with EnumMeta show ?thesis by (auto simp: Column_init_def Let_def)
  next
    case (Inr xs)
    show ?thesis
    proof (cases "Unhashable \<in> set xs")
      case True
      with EnumMeta Inr py_set_unhashable [OF True] show ?thesis
        by (auto simp: Column_init_def Let_def)
    next
      case False
      with EnumMeta Inr py_set_hashable [OF False] show ?thesis
        by (auto simp: Column_init_def Let_def)
    qed
  qed
qed

text \<open>
  Claim C4. Whenever construction succeeds with \<open>composite_key=True\<close>, the descriptor
  has \<open>indexed\<close> and \<open>required\<close> set, whatever \<open>index\<close> and \<open>required\<close> were;
  whenever it succeeds with \<open>primary_key=True\<close>, the descriptor has \<open>required\<close> set.
\<close>

theorem key_flags_imply_indexed_required:
  "(Column_init ty pk (PyBool True) idx req en srt = Inr (c :: 'v column)
      \<longrightarrow> indexed c \<and> required c) \<and>
   (Column_init ty (PyBool True) ck idx req en srt = Inr (c' :: 'v column)
      \<longrightarrow> required c')"
  by (cases en) (auto simp: Column_init_def Let_def is_True_def split: if_splits sum.splits)

theorem key_flags_imply_indexed_required_witness:
  "Column_init TStr PyNone (PyBool True) (PyBool False) (PyBool False) (NotEnum PyNone) PyNone
     = Inr \<lparr> field_type = TStr, primary = False, composite = True, sorted_flag = False,
            indexed = True, required = True, enum_attr = NotEnum PyNone,
            enum_choices = {} :: nat set, name = None \<rparr> \<and>
   Column_init TInt (PyBool True) PyNone PyNone (PyBool False) (NotEnum PyNone) PyNone
     = Inr \<lparr> field_type = TInt, primary = True, composite = False, sorted_flag = False,
            indexed = False, required = True, enum_attr = NotEnum PyNone,
            enum_choices = {} :: nat set, name = None \<rparr>"
  using
    key_flags_imply_indexed_required
      [where ty = TStr and pk = PyNone and idx = "PyBool False" and req = "PyBool False"
         and en = "NotEnum PyNone :: nat enum_arg" and srt = PyNone and ck = PyNone]
    key_flags_imply_indexed_required
      [where ty = TInt and pk = PyNone and idx = PyNone and req = "PyBool False"
         and en = "NotEnum PyNone :: nat enum_arg" and srt = PyNone and ck = PyNone]
  by (simp add: Column_init_def is_True_def)

text \<open>
  Claim C5, as amended. Whenever both \<open>primary_key\<close> and \<open>composite_key\<close> are truthy,
  construction raises \<open>InvalidColumnDefinition\<close> and produces no descriptor, whatever the
  other arguments are. The exception is the one of the primary/composite check whenever
  the type is a supported one; for an unsupported type it is the one of the type check,
  which runs first.
\<close>

theorem both_keys_truthy_fails:
  assumes "truthy pk" and "truthy ck"
  shows "(\<exists>msg. Column_init ty pk ck idx req en srt =
            (Inl (InvalidColumnDefinition msg) :: error + 'v column)) \<and>
         (\<forall>c :: 'v column. Column_init ty pk ck idx req en srt \<noteq> Inr c) \<and>
         (ty \<in> {TStr, TInt, TDecimal} \<longrightarrow>
            Column_init ty pk ck idx req en srt =
              (Inl (InvalidColumnDefinition Primary_And_Composite) :: error + 'v column))"
  using assms by (simp add: Column_init_def)

theorem both_keys_truthy_fails_witness:
  "truthy (PyBool True) \<and> truthy (PyInt 1) \<and> TInt \<in> {TStr, TInt, TDecimal} \<and>
   Column_init TInt (PyBool True) (PyInt 1) PyNone PyNone
     (EnumMeta True (Inr [Hashable (1 :: nat), Hashable 2])) PyNone
     = Inl (InvalidColumnDefinition Primary_And_Composite)"
proof -
  have h1: "truthy (PyBool True)" and h2: "truthy (PyInt 1)" by simp_all
  have h3: "TInt \<in> {TStr, TInt, TDecimal}" by simp
  from both_keys_truthy_fails [OF h1 h2, of TInt PyNone PyNone
      "EnumMeta True (Inr [Hashable (1 :: nat), Hashable 2])" PyNone] h3
  have "Column_init TInt (PyBool True) (PyInt 1) PyNone PyNone
     (EnumMeta True (Inr [Hashable (1 :: nat), Hashable 2])) PyNone
     = Inl (InvalidColumnDefinition Primary_And_Composite)"
    by blast
  with h1 h2 h3 show ?thesis by blast
qed

text \<open>
  The claim as it was written fails for an unsupported type: with \<open>type=float\<close> and
  both key arguments \<open>True\<close> the error raised is the bad-field-type one, not the
  primary/composite one.
\<close>

theorem both_keys_truthy_counterexample:
  "truthy (PyBool True) \<and>
   (Column_init (TOther ''float'') (PyBool True) (PyBool True) PyNone PyNone
      (NotEnum PyNone) PyNone :: error + nat column)
     = Inl (InvalidColumnDefinition (Bad_Field_Type (TOther ''float''))) \<and>
   (Column_init (TOther ''float'') (PyBool True) (PyBool True) PyNone PyNone
      (NotEnum PyNone) PyNone :: error + nat column)
     \<noteq> Inl (InvalidColumnDefinition Primary_And_Composite)"
  by (simp add: Column_init_def)

text \<open>
  Claim C6. Construction fails with the bad-field-type message exactly when the
  requested type is none of \<open>str\<close>, \<open>int\<close>, \<open>Decimal\<close>; for each of these three
  the type check passes (whatever happens afterwards is not that error).
\<close>

theorem bad_field_type_iff:
  "(\<exists>t. Column_init ty pk ck idx req en srt =
          (Inl (InvalidColumnDefinition (Bad_Field_Type t)) :: error + 'v column))
     = (ty \<notin> {TStr, TInt, TDecimal})"
  by (cases en) (auto simp: Column_init_def Let_def split: sum.splits dest: py_set_Inl)

theorem bad_field_type_iff_witness:
  "(\<exists>t. Column_init (TOther ''float'') PyNone PyNone PyNone PyNone (NotEnum PyNone) PyNone =
          (Inl (InvalidColumnDefinition (Bad_Field_Type t)) :: error + nat column)) \<and>
   \<not> (\<exists>t. Column_init TStr PyNone PyNone PyNone PyNone (NotEnum PyNone) PyNone =
          (Inl (InvalidColumnDefinition (Bad_Field_Type t)) :: error + nat column)) \<and>
   \<not> (\<exists>t. Column_init TInt (PyBool True) (PyBool True) PyNone PyNone (NotEnum PyNone) PyNone =
          (Inl (InvalidColumnDefinition (Bad_Field_Type t)) :: error + nat column)) \<and>
   \<not> (\<exists>t. Column_init TDecimal PyNone PyNone PyNone PyNone (NotEnum (PyInt 5)) PyNone =
          (Inl (InvalidColumnDefinition (Bad_Field_Type t)) :: error + nat column))"
  using
    bad_field_type_iff [of "TOther ''float''" PyNone PyNone PyNone PyNone
      "NotEnum PyNone :: nat enum_arg" PyNone]
    bad_field_type_iff [of TStr PyNone PyNone PyNone PyNone
      "NotEnum PyNone :: nat enum_arg" PyNone]
    bad_field_type_iff [of TInt "PyBool True" "PyBool True" PyNone PyNone
      "NotEnum PyNone :: nat enum_arg" PyNone]
    bad_field_type_iff [of TDecimal PyNone PyNone PyNone PyNone
      "NotEnum (PyInt 5) :: nat enum_arg" PyNone]
  by simp

text \<open>
  Claim C7, as amended. A truthy \<open>enum\<close> argument that is not an enumeration class makes
  construction fail with \<open>InvalidColumnDefinition\<close>, with the not-an-EnumMeta message once
  the type check and the key check have passed. When those two checks pass:

     \<^item> a truthy enumeration class whose iteration yields members with hashable values
       only makes construction succeed, with \<open>enum_choices\<close> exactly the set of the
       values of the members that iteration yields;

     \<^item> a truthy enumeration class with an unhashable value among them makes
       construction fail with \<open>TypeError\<close>, and one whose own code raises while the
       values are read makes it fail with that exception;

     \<^item> a falsy \<open>enum\<close> argument (\<open>None\<close>, but also a supplied \<open>0\<close>, \<open>False\<close> or empty
       string, or an enumeration class that is falsy) makes it succeed with
       \<open>enum_choices\<close> empty.
\<close>

theorem enum_restriction:
  "(en = NotEnum obj \<and> truthy obj \<longrightarrow>
      (\<exists>msg. Column_init ty pk ck idx req en srt =
          (Inl (InvalidColumnDefinition msg) :: error + 'v column)) \<and>
      (ty \<in> {TStr, TInt, TDecimal} \<and> \<not> (truthy pk \<and> truthy ck) \<longrightarrow>
         Column_init ty pk ck idx req en srt =
           (Inl (InvalidColumnDefinition (Not_EnumMeta_Instance obj)) :: error + 'v column))) \<and>
   (en = EnumMeta True (Inr xs) \<and> Unhashable \<notin> set xs \<and>
      ty \<in> {TStr, TInt, TDecimal} \<and> \<not> (truthy pk \<and> truthy ck) \<longrightarrow>
      (\<exists>c :: 'v column. Column_init ty pk ck idx req en srt = Inr c \<and>
            enum_choices c = {v. Hashable v \<in> set xs})) \<and>
   (en = EnumMeta True (Inr xs) \<and> Unhashable \<in> set xs \<and>
      ty \<in> {TStr, TInt, TDecimal} \<and> \<not> (truthy pk \<and> truthy ck) \<longrightarrow>
      Column_init ty pk ck idx req en srt = (Inl TypeError :: error + 'v column)) \<and>
   (en = EnumMeta True (Inl msg) \<and>
      ty \<in> {TStr, TInt, TDecimal} \<and> \<not> (truthy pk \<and> truthy ck) \<longrightarrow>
      Column_init ty pk ck idx req en srt = (Inl (EnumFailure msg) :: error + 'v column)) \<and>
   (\<not> enum_truthy en \<and> ty \<in> {TStr, TInt, TDecimal} \<and> \<not> (truthy pk \<and> truthy ck) \<longrightarrow>
      (\<exists>c :: 'v column. Column_init ty pk ck idx req en srt = Inr c \<and>
            enum_choices c = {}))"
proof -
  have hashable: "py_set xs = Inr {v. Hashable v \<in> set xs}" if "Unhashable \<notin> set xs"
    using that by (rule py_set_hashable)
  have unhashable: "py_set xs = Inl TypeError" if "Unhashable \<in> set xs"
    using that by (rule py_set_unhashable)
  show ?thesis
    using hashable unhashable by (auto simp: Column_init_def Let_def)
qed

theorem enum_restriction_witness:
  "TStr \<in> {TStr, TInt, TDecimal} \<and> \<not> (truthy PyNone \<and> truthy PyNone) \<and>
   Unhashable \<notin> set [Hashable ''red'', Hashable ''green'', Hashable ''blue''] \<and>
   (\<exists>c :: string column.
      Column_init TStr PyNone PyNone PyNone PyNone
        (EnumMeta True (Inr [Hashable ''red'', Hashable ''green'', Hashable ''blue''])) PyNone
        = Inr c \<and>
      enum_choices c = {''red'', ''green'', ''blue''} \<and> card (enum_choices c) = 3) \<and>
   Unhashable \<in> set [Hashable ''red'', Unhashable] \<and>
   Column_init TStr PyNone PyNone PyNone PyNone
     (EnumMeta True (Inr [Hashable ''red'', Unhashable])) PyNone =
     (Inl TypeError :: error + string column) \<and>
   Column_init TStr PyNone PyNone PyNone PyNone (EnumMeta True (Inl ''RuntimeError'')) PyNone =
     (Inl (EnumFailure ''RuntimeError'') :: error + string column) \<and>
   truthy (PyStr ''red'') \<and>
   Column_init TStr PyNone PyNone PyNone PyNone (NotEnum (PyStr ''red'')) PyNone =
     (Inl (InvalidColumnDefinition (Not_EnumMeta_Instance (PyStr ''red''))) :: error + string column) \<and>
   \<not> enum_truthy (NotEnum PyNone :: string enum_arg) \<and>
   (\<exists>c :: string column.
      Column_init TStr PyNone PyNone PyNone PyNone (NotEnum PyNone) PyNone = Inr c \<and>
      enum_choices c = {}) \<and>
   \<not> enum_truthy (EnumMeta False (Inr [Hashable ''red'']) :: string enum_arg) \<and>
   (\<exists>c :: string column.
      Column_init TStr PyNone PyNone PyNone PyNone (EnumMeta False (Inr [Hashable ''red''])) PyNone
        = Inr c \<and>
      enum_choices c = {})"
proof -
  let ?rgb = "[Hashable ''red'', Hashable ''green'', Hashable ''blue'']"
  let ?bad = "[Hashable ''red'', Unhashable :: string enum_value]"
  let ?falsy = "EnumMeta False (Inr [Hashable ''red'']) :: string enum_arg"
  have h1: "TStr \<in> {TStr, TInt, TDecimal}" by simp
  have h2: "\<not> (truthy PyNone \<and> truthy PyNone)" by simp
  have h3: "truthy (PyStr ''red'')" by simp
  have h4: "\<not> enum_truthy (NotEnum PyNone :: string enum_arg)" by simp
  have h5: "Unhashable \<notin> set ?rgb" by simp
  have h6: "Unhashable \<in> set ?bad" by simp
  have h7: "\<not> enum_truthy ?falsy" by simp
  note E = enum_restriction [where ty = TStr and pk = PyNone and ck = PyNone and idx = PyNone
      and req = PyNone and srt = PyNone]
  obtain c :: "string column" where c:
    "Column_init TStr PyNone PyNone PyNone PyNone (EnumMeta True (Inr ?rgb)) PyNone = Inr c"
    "enum_choices c = {v. Hashable v \<in> set ?rgb}"
    using E [where en = "EnumMeta True (Inr ?rgb)" and xs = ?rgb] h1 h2 h5
    by blast
  have rgb: "{v. Hashable v \<in> set ?rgb} = {''red'', ''green'', ''blue''}" by auto
  have choices: "enum_choices c = {''red'', ''green'', ''blue''}" using c(2) rgb by simp
  have card: "card (enum_choices c) = 3" unfolding choices by simp
  have unhashable: "Column_init TStr PyNone PyNone PyNone PyNone (EnumMeta True (Inr ?bad)) PyNone =
     (Inl TypeError :: error + string column)"
    using E [where en = "EnumMeta True (Inr ?bad)" and xs = ?bad] h1 h2 h6
    by blast
  have raising: "Column_init TStr PyNone PyNone PyNone PyNone (EnumMeta True (Inl ''RuntimeError'')) PyNone =
     (Inl (EnumFailure ''RuntimeError'') :: error + string column)"
    using E [where en = "EnumMeta True (Inl ''RuntimeError'') :: string enum_arg"
        and msg = "''RuntimeError''"]
      h1 h2
    by blast
  have bad: "Column_init TStr PyNone PyNone PyNone PyNone (NotEnum (PyStr ''red'')) PyNone =
     (Inl (InvalidColumnDefinition (Not_EnumMeta_Instance (PyStr ''red''))) :: error + string column)"
    using E [where en = "NotEnum (PyStr ''red'') :: string enum_arg" and obj = "PyStr ''red''"]
      h1 h2 h3
    by blast
  obtain c' :: "string column" where c':
    "Column_init TStr PyNone PyNone PyNone PyNone (NotEnum PyNone) PyNone = Inr c'"
    "enum_choices c' = {}"
    using E [where en = "NotEnum PyNone :: string enum_arg"] h1 h2 h4
    by blast
  obtain c'' :: "string column" where c'':
    "Column_init TStr PyNone PyNone PyNone PyNone ?falsy PyNone = Inr c''"
    "enum_choices c'' = {}"
    using E [where en = ?falsy] h1 h2 h7
    by blast
  from c(1) choices card have first: "\<exists>c :: string column.
      Column_init TStr PyNone PyNone PyNone PyNone (EnumMeta True (Inr ?rgb)) PyNone = Inr c \<and>
      enum_choices c = {''red'', ''green'', ''blue''} \<and> card (enum_choices c) = 3"
    by blast
  from c' have none: "\<exists>c :: string column.
      Column_init TStr PyNone PyNone PyNone PyNone (NotEnum PyNone) PyNone = Inr c \<and>
      enum_choices c = {}"
    by blast
  from c'' have falsy: "\<exists>c :: string column.
      Column_init TStr PyNone PyNone PyNone PyNone ?falsy PyNone = Inr c \<and>
      enum_choices c = {}"
    by blast
  show ?thesis
    using h1 h2 h3 h4 h5 h6 h7 first unhashable raising bad none falsy
    by (intro conjI)
qed

text \<open>
  The claim as it was written fails on both sides. A supplied restriction that is
  falsy and not an enumeration class is not rejected: \<open>enum=0\<close> is accepted and leaves
  the field unrestricted. And a well-formed enumeration does not always construct:
  one with a list as a member's value raises \<open>TypeError\<close>.
\<close>

theorem enum_restriction_counterexample:
  "(Column_init TStr PyNone PyNone PyNone PyNone (NotEnum (PyInt 0)) PyNone :: error + nat column)
     = Inr \<lparr> field_type = TStr, primary = False, composite = False, sorted_flag = False,
            indexed = False, required = False, enum_attr = NotEnum (PyInt 0),
            enum_choices = {}, name = None \<rparr> \<and>
   (Column_init TStr PyNone PyNone PyNone PyNone
      (EnumMeta True (Inr [Hashable 1, Unhashable])) PyNone :: error + nat column)
     = Inl TypeError"
  by (simp add: Column_init_def is_True_def)

text \<open>
  Claim C10. On every constructed field the flags \<open>primary\<close>, \<open>composite\<close> and
  \<open>sorted\<close> are set exactly when the corresponding argument is the object \<open>True\<close>,
  while the conflict check looks at truthiness only. So \<open>primary_key=1\<close> alone
  constructs a field with \<open>primary\<close> and \<open>required\<close> both false, and
  \<open>primary_key=1, composite_key=1\<close> is rejected although neither flag would be set.
\<close>

theorem flags_by_identity:
  "(Column_init ty pk ck idx req en srt = Inr (c :: 'v column) \<longrightarrow>
      primary c = (pk = PyBool True) \<and> composite c = (ck = PyBool True) \<and>
      sorted_flag c = (srt = PyBool True)) \<and>
   (\<exists>c1 :: 'v column.
      Column_init TStr (PyInt 1) PyNone PyNone PyNone (NotEnum PyNone) PyNone = Inr c1 \<and>
      \<not> primary c1 \<and> \<not> required c1) \<and>
   (Column_init TStr (PyInt 1) (PyInt 1) PyNone PyNone (NotEnum PyNone) PyNone
      = (Inl (InvalidColumnDefinition Primary_And_Composite) :: error + 'v column))"
  by (cases en) (auto simp: Column_init_def Let_def is_True_def split: if_splits sum.splits)

theorem flags_by_identity_witness:
  "Column_init TInt (PyBool True) (PyInt 0) PyNone PyNone (NotEnum PyNone) (PyStr ''yes'')
     = Inr \<lparr> field_type = TInt, primary = True, composite = False, sorted_flag = False,
            indexed = False, required = True, enum_attr = NotEnum PyNone,
            enum_choices = {} :: nat set, name = None \<rparr> \<and>
   Column_init TStr (PyInt 1) PyNone PyNone PyNone (NotEnum PyNone) PyNone
     = Inr \<lparr> field_type = TStr, primary = False, composite = False, sorted_flag = False,
            indexed = False, required = False, enum_attr = NotEnum PyNone,
            enum_choices = {} :: nat set, name = None \<rparr>"
  using flags_by_identity
    [where ty = TInt and pk = "PyBool True" and ck = "PyInt 0" and idx = PyNone and req = PyNone
       and en = "NotEnum PyNone :: nat enum_arg" and srt = "PyStr ''yes''"]
  by (simp add: Column_init_def is_True_def)

section \<open>Properties of the typed columns\<close>

text \<open>
  Claim C3 says that constructing a \<open>DecimalColumn\<close> succeeds and yields a descriptor
  with type \<open>Decimal\<close> and the given scale. The code does not do that: because of the
  single star in \<open>*kwargs\<close>, every call raises. With no keyword other than
  \<open>decimal_places\<close> the exception is the \<open>AttributeError\<close> of \<open>kwargs.pop\<close> on a tuple,
  whatever \<open>decimal_places\<close> and the extra positional arguments are; with any other
  keyword the call itself is rejected. No descriptor is ever returned.
\<close>

theorem DecimalColumn_init_always_raises:
  "DecimalColumn_init dp kwargs [] = (Inl AttributeError :: error + 'v decimal_column) \<and>
   (\<forall>c :: 'v decimal_column. DecimalColumn_init dp kwargs keywords \<noteq> Inr c)"
  by (simp add: DecimalColumn_init_def tuple_getattr_def)

lemma example_id_column_constructed:
  "Integer_init PyNone PyNone PyNone PyNone (NotEnum PyNone) PyNone (PyBool True) = Inr c
     \<Longrightarrow> example_id_column = c \<lparr> name := Some ''id'' \<rparr>"
  by (auto simp: Integer_init_def Column_init_def is_True_def example_id_column_def
      column.extend_def integer_column.fields_def)

lemma auto_generate_counter:
  assumes "name self = Some field_name"
  shows "auto_generate self counter_incr db key_prefix =
           counter_incr (''auto:'' @ key_prefix @ '':'' @ field_name) db"
  using assms by (simp add: auto_generate_def)

lemma generate_many_counter_key:
  assumes call: "\<And>db. auto_generate self counter_incr db key_prefix = counter_incr key db"
    and up: "available db"
  shows "generate_many k self counter_incr db key_prefix =
           (map (\<lambda>i. Inr (counters db key + int (Suc i))) [0..<k],
            db \<lparr> counters := (counters db)(key := counters db key + int k),
                 requests := requests db @ replicate k key \<rparr>)"
  using up
proof (induction k arbitrary: db)
  case 0
  then show ?case by simp
next
  case (Suc k)
  let ?db1 = "db \<lparr> counters := (counters db)(key := counters db key + 1),
                   requests := requests db @ [key] \<rparr>"
  have step: "auto_generate self counter_incr db key_prefix = (Inr (counters db key + 1), ?db1)"
    using Suc.prems by (simp add: call counter_incr_def)
  have up1: "available ?db1" using Suc.prems by simp
  have list: "[0..<Suc k] = 0 # map Suc [0..<k]"
    by (simp add: upt_conv_Cons map_Suc_upt del: upt_Suc)
  have upd: "(counters ?db1)(key := counters ?db1 key + int k)
               = (counters db)(key := counters db key + int (Suc k))"
    by (simp add: algebra_simps)
  have reqs: "requests ?db1 @ replicate k key = requests db @ replicate (Suc k) key"
    by simp
  have results: "Inr (counters db key + 1) # map (\<lambda>i. Inr (counters ?db1 key + int (Suc i))) [0..<k]
                   = map (\<lambda>i. (Inr (counters db key + int (Suc i)) :: error + int)) [0..<Suc k]"
    unfolding list by (simp add: o_def algebra_simps)
  have rec: "generate_many k self counter_incr ?db1 key_prefix =
          (map (\<lambda>i. Inr (counters ?db1 key + int (Suc i))) [0..<k],
           ?db1 \<lparr> counters := (counters ?db1)(key := counters ?db1 key + int k),
                  requests := requests ?db1 @ replicate k key \<rparr>)"
    using up1 by (rule Suc.IH)
  have "generate_many (Suc k) self counter_incr db key_prefix =
          (Inr (counters db key + 1) # map (\<lambda>i. Inr (counters ?db1 key + int (Suc i))) [0..<k],
           ?db1 \<lparr> counters := (counters ?db1)(key := counters ?db1 key + int k),
                  requests := requests ?db1 @ replicate k key \<rparr>)"
    by (simp only: generate_many.simps Let_def step rec prod.case)
  also have "\<dots> = (map (\<lambda>i. Inr (counters db key + int (Suc i))) [0..<Suc k],
            db \<lparr> counters := (counters db)(key := counters db key + int (Suc k)),
                 requests := requests db @ replicate (Suc k) key \<rparr>)"
    unfolding results upd reqs by simp
  finally show ?case .
qed

lemma generate_many_counter:
  assumes nm: "name self = Some field_name" and up: "available db"
  shows "generate_many k self counter_incr db key_prefix =
           (map (\<lambda>i. Inr (counters db (''auto:'' @ key_prefix @ '':'' @ field_name) + int (Suc i))) [0..<k],
            db \<lparr> counters := (counters db)
                   (''auto:'' @ key_prefix @ '':'' @ field_name :=
                      counters db (''auto:'' @ key_prefix @ '':'' @ field_name) + int k),
                 requests := requests db @ replicate k (''auto:'' @ key_prefix @ '':'' @ field_name) \<rparr>)"
  using auto_generate_counter [OF nm] up by (rule generate_many_counter_key)

text \<open>
  Claim C9. Once the field has its name, \<open>auto_generate\<close> is one call of the counter
  service with the key \<open>"auto:" + key_prefix + ":" + name\<close>: for any service, its answer
  and the state it leaves are exactly those of that one call, so the answer is returned
  unchanged and a failure is passed on as it is. Against the reference counter, \<open>k\<close> calls
  in a row yield the \<open>k\<close> successors of the counter's value in order and leave exactly
  \<open>k\<close> requests for that key in the log; against a counter that is down, the failure
  comes back and the log shows the one request and no second attempt.
\<close>

theorem auto_generate_single_increment:
  assumes "name self = Some field_name"
  shows "auto_generate self incr db key_prefix =
           incr (''auto:'' @ key_prefix @ '':'' @ field_name) db \<and>
         (available cdb \<longrightarrow>
            generate_many k self counter_incr cdb key_prefix =
              (map (\<lambda>i. Inr (counters cdb (''auto:'' @ key_prefix @ '':'' @ field_name) + int (Suc i)))
                 [0..<k],
               cdb \<lparr> counters := (counters cdb)
                      (''auto:'' @ key_prefix @ '':'' @ field_name :=
                         counters cdb (''auto:'' @ key_prefix @ '':'' @ field_name) + int k),
                    requests := requests cdb
                      @ replicate k (''auto:'' @ key_prefix @ '':'' @ field_name) \<rparr>)) \<and>
         (\<not> available cdb \<longrightarrow>
            auto_generate self counter_incr cdb key_prefix =
              (Inl (ServiceFailure ''counter unavailable''),
               cdb \<lparr> requests := requests cdb @ [''auto:'' @ key_prefix @ '':'' @ field_name] \<rparr>))"
  using assms generate_many_counter [OF assms, of cdb k key_prefix]
  by (simp add: auto_generate_def counter_incr_def)

theorem auto_generate_single_increment_witness:
  "name example_id_column = Some ''id'' \<and> available fresh_counter \<and>
   generate_many 3 example_id_column counter_incr fresh_counter ''user'' =
     ([Inr 1, Inr 2, Inr 3],
      \<lparr> counters = (\<lambda>key. 0)(''auto:user:id'' := 3),
        requests = [''auto:user:id'', ''auto:user:id'', ''auto:user:id''],
        available = True \<rparr>) \<and>
   auto_generate example_id_column counter_incr (fresh_counter \<lparr> available := False \<rparr>) ''user'' =
     (Inl (ServiceFailure ''counter unavailable''),
      \<lparr> counters = (\<lambda>key. 0), requests = [''auto:user:id''], available = False \<rparr>)"
proof -
  have nm: "name example_id_column = Some ''id''" by (simp add: example_id_column_def)
  have up: "available fresh_counter" by (simp add: fresh_counter_def)
  have down: "\<not> available (fresh_counter \<lparr> available := False \<rparr>)" by simp
  have three: "[0..<3] = [0, 1, 2]" by (simp add: upt_rec)
  have key: "''auto:'' @ ''user'' @ '':'' @ ''id'' = ''auto:user:id''" by simp
  note T1 = auto_generate_single_increment
    [OF nm, where key_prefix = "''user''" and cdb = fresh_counter and k = 3
       and incr = counter_incr and db = fresh_counter]
  note T2 = auto_generate_single_increment
    [OF nm, where key_prefix = "''user''" and cdb = "fresh_counter \<lparr> available := False \<rparr>"
       and k = 0 and incr = counter_incr and db = fresh_counter]
  have "generate_many 3 example_id_column counter_incr fresh_counter ''user'' =
      (map (\<lambda>i. Inr (counters fresh_counter ''auto:user:id'' + int (Suc i))) [0..<3],
       fresh_counter \<lparr> counters := (counters fresh_counter)
              (''auto:user:id'' := counters fresh_counter ''auto:user:id'' + int 3),
            requests := requests fresh_counter @ replicate 3 ''auto:user:id'' \<rparr>)"
    using T1 up unfolding key by blast
  also have "\<dots> = ([Inr 1, Inr 2, Inr 3],
      \<lparr> counters = (\<lambda>key. 0)(''auto:user:id'' := 3),
        requests = [''auto:user:id'', ''auto:user:id'', ''auto:user:id''],
        available = True \<rparr>)"
    unfolding three by (simp add: fresh_counter_def numeral_3_eq_3)
  finally have many: "generate_many 3 example_id_column counter_incr fresh_counter ''user'' =
     ([Inr 1, Inr 2, Inr 3],
      \<lparr> counters = (\<lambda>key. 0)(''auto:user:id'' := 3),
        requests = [''auto:user:id'', ''auto:user:id'', ''auto:user:id''],
        available = True \<rparr>)" .
  have "auto_generate example_id_column counter_incr
       (fresh_counter \<lparr> available := False \<rparr>) ''user'' =
     (Inl (ServiceFailure ''counter unavailable''),
      fresh_counter \<lparr> available := False \<rparr>
        \<lparr> requests := requests (fresh_counter \<lparr> available := False \<rparr>) @ [''auto:user:id''] \<rparr>)"
    using T2 down unfolding key by blast
  also have "\<dots> = (Inl (ServiceFailure ''counter unavailable''),
      \<lparr> counters = (\<lambda>key. 0), requests = [''auto:user:id''], available = False \<rparr>)"
    by (simp add: fresh_counter_def)
  finally have fail: "auto_generate example_id_column counter_incr
       (fresh_counter \<lparr> available := False \<rparr>) ''user'' =
     (Inl (ServiceFailure ''counter unavailable''),
      \<lparr> counters = (\<lambda>key. 0), requests = [''auto:user:id''], available = False \<rparr>)" .
  from nm up many fail show ?thesis by blast
qed

section \<open>Lemmas about the arithmetic\<close>

subsection \<open>Digit counts\<close>

text \<open>A positive number of \<open>d\<close> digits lies between \<open>10 ^ (d - 1)\<close> and \<open>10 ^ d\<close>.\<close>

lemma ndigits_pos: "0 < ndigits n"
  by (subst ndigits.simps) simp

lemma ndigits_upper: "n < 10 ^ ndigits n"
proof (induction n rule: ndigits.induct)
  case (1 n)
  show ?case
  proof (cases "n < 10")
    case True
    then show ?thesis by (subst ndigits.simps) simp
  next
    case False
    with 1 have "n div 10 < 10 ^ ndigits (n div 10)" by simp
    then have "n < 10 * 10 ^ ndigits (n div 10)" by (simp add: less_mult_imp_div_less div_less_iff_less_mult)
    with False show ?thesis by (subst ndigits.simps) simp
  qed
qed

lemma ndigits_lower: "0 < n \<Longrightarrow> 10 ^ (ndigits n - 1) \<le> n"
proof (induction n rule: ndigits.induct)
  case (1 n)
  show ?case
  proof (cases "n < 10")
    case True
    with 1 show ?thesis by (subst ndigits.simps) simp
  next
    case False
    then have pos: "0 < n div 10" by simp
    with 1 False have "10 ^ (ndigits (n div 10) - 1) \<le> n div 10" by simp
    then have "10 * 10 ^ (ndigits (n div 10) - 1) \<le> n" by simp
    moreover have "0 < ndigits (n div 10)" by (rule ndigits_pos)
    ultimately have "10 ^ ndigits (n div 10) \<le> n"
      by (cases "ndigits (n div 10)") simp_all
    with False show ?thesis by (subst ndigits.simps) simp
  qed
qed

lemma ndigits_eqI:
  assumes "10 ^ d \<le> n" and "n < 10 ^ Suc d"
  shows "ndigits n = Suc d"
proof -
  have pos: "0 < n" using assms(1) by (cases "n = 0") simp_all
  have "(10::nat) ^ (ndigits n - 1) < 10 ^ Suc d"
    using ndigits_lower [OF pos] assms(2) by (rule le_less_trans)
  then have a: "ndigits n - 1 < Suc d" by (rule power_less_imp_less_exp [rotated]) simp
  have "(10::nat) ^ d < 10 ^ ndigits n"
    using assms(1) ndigits_upper [of n] by (rule le_less_trans)
  then have b: "d < ndigits n" by (rule power_less_imp_less_exp [rotated]) simp
  from a b show ?thesis by simp
qed

lemma ndigits_le_iff: "0 < p \<Longrightarrow> ndigits n \<le> p \<longleftrightarrow> n < 10 ^ p"
proof
  assume "ndigits n \<le> p"
  then have "(10::nat) ^ ndigits n \<le> 10 ^ p" by (intro power_increasing) simp_all
  with ndigits_upper [of n] show "n < 10 ^ p" by (rule less_le_trans)
next
  assume p: "0 < p" and lt: "n < 10 ^ p"
  show "ndigits n \<le> p"
  proof (cases "n = 0")
    case True
    then have "ndigits n = 1" by (subst ndigits.simps) simp
    with p show ?thesis by simp
  next
    case False
    then have "(10::nat) ^ (ndigits n - 1) \<le> n" using ndigits_lower [of n] by simp
    with lt have "(10::nat) ^ (ndigits n - 1) < 10 ^ p" by (rule le_less_trans [rotated])
    then have "ndigits n - 1 < p" by (rule power_less_imp_less_exp [rotated]) simp
    then show ?thesis by simp
  qed
qed

lemma ndigits_mult_pow10: "0 < m \<Longrightarrow> ndigits (m * 10 ^ j) = ndigits m + j"
proof -
  assume pos: "0 < m"
  obtain d where d: "ndigits m = Suc d" using ndigits_pos [of m] by (cases "ndigits m") simp_all
  have lo: "10 ^ d \<le> m" using ndigits_lower [OF pos] d by simp
  have hi: "m < 10 ^ Suc d" using ndigits_upper [of m] d by simp
  have "10 ^ (d + j) \<le> m * 10 ^ j" using lo by (simp add: power_add)
  moreover have "m * 10 ^ j < 10 ^ Suc (d + j)" using hi by (simp add: power_add)
  ultimately have "ndigits (m * 10 ^ j) = Suc (d + j)" by (rule ndigits_eqI)
  with d show ?thesis by simp
qed

subsection \<open>Rounding to the context\<close>

text \<open>
  A coefficient of at most \<open>prec\<close> digits is left alone by \<open>dec_fix\<close>; one with more
  digits whose surplus digits are zeros loses exactly these zeros. Either way the value
  is kept.
\<close>

lemma prec_pos: "0 < prec"
  by (simp add: prec_def)

lemma Etiny_le_Etop: "Etiny \<le> Etop"
  by (simp add: Etiny_def Etop_def Emin_def Emax_def)

lemma Etop_le_Emax: "Etop \<le> Emax"
  by (simp add: Etop_def prec_def)

lemma round_half_even_exact: "round_half_even (q * 10 ^ k) k = q"
  by (simp add: round_half_even_def)

lemma dec_fix_exact:
  assumes "c < 10 ^ prec" and "Etiny \<le> e" and "e \<le> Etop"
  shows "dec_fix (Finite sg c e) = Inr (Finite sg c e)"
proof (cases "c = 0")
  case True
  with assms Etop_le_Emax show ?thesis by simp
next
  case False
  have "ndigits c \<le> prec" using assms(1) prec_pos by (simp add: ndigits_le_iff)
  then have "int (ndigits c) + e - int prec \<le> e" by simp
  with False assms(2,3) show ?thesis by (simp add: Let_def)
qed

lemma dec_fix_trailing_zeros:
  assumes m: "0 < m" "m < 10 ^ prec"
    and e: "Etiny \<le> e" "int (ndigits m) + int j + e - int prec \<le> Etop"
  shows "\<exists>c' e'. dec_fix (Finite sg (m * 10 ^ j) e) = Inr (Finite sg c' e') \<and>
           e \<le> e' \<and> c' * 10 ^ nat (e' - e) = m * 10 ^ j \<and> 0 < c' \<and> c' < 10 ^ prec"
proof -
  let ?c = "m * 10 ^ j"
  have cpos: "?c \<noteq> 0" using m(1) by simp
  have L: "ndigits ?c = ndigits m + j" using m(1) by (rule ndigits_mult_pow10)
  have dm: "ndigits m \<le> prec" using m(2) prec_pos by (simp add: ndigits_le_iff)
  show ?thesis
  proof (cases "ndigits m + j \<le> prec")
    case True
    then have "?c < 10 ^ prec" using L prec_pos ndigits_le_iff [of prec ?c] by simp
    moreover have "int (ndigits ?c) + e - int prec \<le> e" using True L by simp
    ultimately show ?thesis using cpos e L m(1) by (simp add: Let_def)
  next
    case False
    define k where "k = ndigits m + j - prec"
    have kpos: "0 < k" and kj: "k \<le> j" using False dm by (simp_all add: k_def)
    have expmin: "int (ndigits ?c) + e - int prec = e + int k"
      using False L by (simp add: k_def)
    have split: "?c = (m * 10 ^ (j - k)) * 10 ^ k"
      using kj by (simp add: power_add [symmetric])
    have r: "round_half_even ?c k = m * 10 ^ (j - k)"
      by (subst split) (rule round_half_even_exact)
    have nd: "ndigits (m * 10 ^ (j - k)) = prec"
      using ndigits_mult_pow10 [OF m(1), of "j - k"] kj False dm by (simp add: k_def)
    have lt: "m * 10 ^ (j - k) < 10 ^ prec"
      using nd prec_pos ndigits_le_iff [of prec "m * 10 ^ (j - k)"] by simp
    have top: "e + int k \<le> Etop" using e(2) False by (simp add: k_def)
    have "dec_fix (Finite sg ?c e) = Inr (Finite sg (m * 10 ^ (j - k)) (e + int k))"
      using cpos expmin e(1) kpos top r nd by (simp add: Let_def)
    moreover have "m * 10 ^ (j - k) * 10 ^ nat (e + int k - e) = ?c"
      using split [symmetric] by simp
    ultimately show ?thesis using lt m(1) by auto
  qed
qed

subsection \<open>Printing an integer and reading it back\<close>

text \<open>\<open>Decimal(str(n))\<close> is the integer \<open>n\<close> with exponent 0.\<close>

lemma of_char_digit_char: "d < 10 \<Longrightarrow> (of_char (digit_char d) :: nat) = 48 + d"
  by (simp add: digit_char_def)

lemma is_digit_digit_char: "d < 10 \<Longrightarrow> is_digit (digit_char d)"
  by (simp add: is_digit_def of_char_digit_char)

lemma digit_val_digit_char: "d < 10 \<Longrightarrow> digit_val (digit_char d) = d"
  by (simp add: digit_val_def of_char_digit_char)

lemma is_digit_not_space: "is_digit c \<Longrightarrow> \<not> is_space c"
  by (auto simp: is_digit_def is_space_def)

lemma is_digit_not_special:
  "is_digit c \<Longrightarrow> c \<noteq> CHR ''_'' \<and> c \<noteq> CHR ''-'' \<and> c \<noteq> CHR ''+''"
  by (auto simp: is_digit_def)

lemma nat_of_digits_snoc: "nat_of_digits (ds @ [c]) = 10 * nat_of_digits ds + digit_val c"
  by (simp add: nat_of_digits_def)

lemma digits_of_nat_props:
  "list_all is_digit (digits_of_nat n) \<and> digits_of_nat n \<noteq> [] \<and>
   nat_of_digits (digits_of_nat n) = n"
proof (induction n rule: digits_of_nat.induct)
  case (1 n)
  show ?case
  proof (cases "n < 10")
    case True
    then show ?thesis
      by (subst (1 2 3) digits_of_nat.simps)
         (simp add: is_digit_digit_char digit_val_digit_char nat_of_digits_def)
  next
    case False
    with 1 have IH: "list_all is_digit (digits_of_nat (n div 10))"
      "nat_of_digits (digits_of_nat (n div 10)) = n div 10" by simp_all
    have d: "n mod 10 < 10" by simp
    from False IH show ?thesis
      by (subst (1 2 3) digits_of_nat.simps)
         (simp add: is_digit_digit_char [OF d] digit_val_digit_char [OF d] nat_of_digits_snoc)
  qed
qed

lemma dropWhile_none: "xs \<noteq> [] \<Longrightarrow> \<not> P (hd xs) \<Longrightarrow> dropWhile P xs = xs"
  by (cases xs) simp_all

lemma strip_id:
  assumes "xs \<noteq> []" and "\<not> is_space (hd xs)" and "\<not> is_space (last xs)"
  shows "strip xs = xs"
proof -
  have "dropWhile is_space xs = xs" using assms(1,2) by (rule dropWhile_none)
  moreover have "dropWhile is_space (rev xs) = rev xs"
    using assms(1,3) by (intro dropWhile_none) (simp_all add: hd_rev)
  ultimately show ?thesis by (simp add: strip_def)
qed

lemma takeWhile_all: "list_all P xs \<Longrightarrow> takeWhile P xs = xs"
  by (induction xs) simp_all

lemma dropWhile_all: "list_all P xs \<Longrightarrow> dropWhile P xs = []"
  by (induction xs) simp_all

lemma parse_number_digits:
  assumes "list_all is_digit ds" and "ds \<noteq> []"
  shows "parse_number sg ds = Some (Finite sg (nat_of_digits ds) 0)"
  using assms by (simp add: parse_number_def takeWhile_all dropWhile_all parse_exp_def)

lemma Decimal_of_str_digits:
  assumes ds: "list_all is_digit ds" "ds \<noteq> []"
  shows "Decimal_of_str ds = Inr (Finite False (nat_of_digits ds) 0)"
    and "Decimal_of_str (CHR ''-'' # ds) = Inr (Finite True (nat_of_digits ds) 0)"
proof -
  have hd: "is_digit (hd ds)" and last: "is_digit (last ds)"
    using ds by (cases ds; simp add: list_all_iff)+
  have nosp: "\<not> is_space (hd ds)" "\<not> is_space (last ds)"
    using hd last by (simp_all add: is_digit_not_space)
  have s1: "strip ds = ds" using ds(2) nosp by (rule strip_id)
  have s2: "strip (CHR ''-'' # ds) = CHR ''-'' # ds"
    using ds(2) nosp(2) by (intro strip_id) (simp_all add: is_space_def)
  have f: "filter (\<lambda>c. c \<noteq> CHR ''_'') ds = ds"
    using ds(1) by (simp add: list_all_iff filter_id_conv is_digit_not_special)
  have sgn: "split_sign ds = (False, ds)"
    using ds(2) hd by (cases ds) (auto simp: split_sign_def dest: is_digit_not_special)
  show "Decimal_of_str ds = Inr (Finite False (nat_of_digits ds) 0)"
    by (simp add: Decimal_of_str_def s1 f sgn parse_number_digits [OF ds])
  show "Decimal_of_str (CHR ''-'' # ds) = Inr (Finite True (nat_of_digits ds) 0)"
    by (simp add: Decimal_of_str_def s2 f split_sign_def parse_number_digits [OF ds])
qed

lemma Decimal_of_str_str_int: "Decimal_of_str (str_int n) = Inr (dec_of_int n)"
proof -
  note P = digits_of_nat_props
  show ?thesis
  proof (cases "n < 0")
    case True
    then have "nat \<bar>n\<bar> = nat (- n)" by simp
    with True show ?thesis
      using Decimal_of_str_digits(2) [of "digits_of_nat (nat (- n))"] P [of "nat (- n)"]
      by (simp add: str_int_def dec_of_int_def)
  next
    case False
    then have "nat \<bar>n\<bar> = nat n" by simp
    with False show ?thesis
      using Decimal_of_str_digits(1) [of "digits_of_nat (nat n)"] P [of "nat n"]
      by (simp add: str_int_def dec_of_int_def)
  qed
qed

subsection \<open>Truncation and the scaled product\<close>

text \<open>
  \<open>dec_int\<close> is truncation of the value towards zero, and the product of a decimal of at
  most \<open>prec\<close> digits with a power of ten is exact.
\<close>

lemma powi_shift:
  assumes "x \<le> x'" and "c' * 10 ^ nat (x' - x) = (c::nat)"
  shows "real c * 10 powi x = real c' * 10 powi x'"
proof -
  have "real c = real c' * 10 powi (x' - x)"
    using assms by (simp add: power_int_def flip: assms(2))
  moreover have "(10::real) powi (x' - x) * 10 powi x = 10 powi x'"
    by (simp flip: power_int_add)
  ultimately show ?thesis by (simp add: mult.assoc)
qed


lemma trunc_nonneg: "0 \<le> x \<Longrightarrow> trunc x = \<lfloor>x\<rfloor>"
  by (simp add: trunc_def)

lemma trunc_minus: "0 \<le> x \<Longrightarrow> trunc (- x) = - \<lfloor>x\<rfloor>"
  by (cases "x = 0") (simp_all add: trunc_def ceiling_minus)

lemma trunc_of_int [simp]: "trunc (of_int n) = n"
  by (simp add: trunc_def)

lemma floor_coeff_powi:
  "\<lfloor>real c * 10 powi e\<rfloor> = (if e \<ge> 0 then int c * 10 ^ nat e else int (c div 10 ^ nat (- e)))"
proof (cases "e \<ge> 0")
  case True
  then have "real c * 10 powi e = of_int (int c * 10 ^ nat e)"
    by (simp add: power_int_def)
  then show ?thesis using True by (simp only: floor_of_int if_True)
next
  case False
  then have "real c * 10 powi e = real c / real (10 ^ nat (- e))"
    by (simp add: power_int_def field_simps)
  then show ?thesis using False by (simp only: floor_divide_of_nat_eq if_False)
qed

lemma dec_int_trunc: "dec_int (Finite sg c e) = Inr (trunc (dec_val (Finite sg c e)))"
proof -
  have nn: "0 \<le> real c * 10 powi e" by simp
  show ?thesis
  proof (cases sg)
    case True
    then have "dec_val (Finite sg c e) = - (real c * 10 powi e)" by simp
    then show ?thesis using True by (simp add: trunc_minus [OF nn] floor_coeff_powi)
  next
    case False
    then have "dec_val (Finite sg c e) = real c * 10 powi e" by simp
    then show ?thesis using False by (simp add: trunc_nonneg [OF nn] floor_coeff_powi)
  qed
qed

lemma dec_of_int_pow10: "dec_of_int (10 ^ s) = Finite False (10 ^ s) 0"
  by (simp add: dec_of_int_def nat_power_eq)

lemma dec_val_shift:
  assumes "e \<le> e'" and "c' * 10 ^ nat (e' - e) = c"
  shows "dec_val (Finite sg c' e') = dec_val (Finite sg c e)"
  using powi_shift [OF assms] by (simp add: mult.assoc)

lemma dec_val_scaled:
  "dec_val (Finite sg (c * 10 ^ s) e) = dec_val (Finite sg c e) * 10 ^ s"
  by simp

lemma dec_mul_pow10:
  assumes digits: "c < 10 ^ prec" and rng: "Etiny \<le> e" "e + int s \<le> Etop"
  shows "\<exists>c' e'. dec_mul (Finite sg c e) (dec_of_int (10 ^ s)) = Inr (Finite sg c' e') \<and>
           dec_val (Finite sg c' e') = dec_val (Finite sg c e) * 10 ^ s"
proof (cases "c = 0")
  case True
  have "e \<le> Emax" using rng(2) Etop_le_Emax by simp
  then have "dec_mul (Finite sg c e) (dec_of_int (10 ^ s)) = Inr (Finite sg 0 e)"
    using True rng(1) by (simp add: dec_mul_def dec_of_int_pow10)
  with True show ?thesis by auto
next
  case False
  then have pos: "0 < c" by simp
  have "ndigits c \<le> prec" using digits prec_pos by (simp add: ndigits_le_iff)
  then have top: "int (ndigits c) + int s + e - int prec \<le> Etop" using rng(2) by simp
  from dec_fix_trailing_zeros [OF pos digits rng(1) top, of sg]
  obtain c' e' where fx: "dec_fix (Finite sg (c * 10 ^ s) e) = Inr (Finite sg c' e')"
    "e \<le> e'" "c' * 10 ^ nat (e' - e) = c * 10 ^ s" by blast
  have "dec_val (Finite sg c' e') = dec_val (Finite sg (c * 10 ^ s) e)"
    using fx(2,3) by (rule dec_val_shift)
  then have "dec_val (Finite sg c' e') = dec_val (Finite sg c e) * 10 ^ s"
    by (simp only: dec_val_scaled)
  moreover have "dec_mul (Finite sg c e) (dec_of_int (10 ^ s)) = Inr (Finite sg c' e')"
    using fx(1) by (simp add: dec_mul_def dec_of_int_pow10 del: dec_fix.simps)
  ultimately show ?thesis by blast
qed

lemma get_redis_value_exact:
  assumes dp: "decimal_places self = int s"
    and digits: "c < 10 ^ prec" and rng: "Etiny \<le> e" "e + int s \<le> Etop"
  shows "get_redis_value self (DecimalValue (Finite sg c e)) =
           Inr (str_int (trunc (dec_val (Finite sg c e) * 10 ^ s)))"
proof -
  from dec_mul_pow10 [OF digits rng, of sg]
  obtain c' e' where m: "dec_mul (Finite sg c e) (dec_of_int (10 ^ s)) = Inr (Finite sg c' e')"
    "dec_val (Finite sg c' e') = dec_val (Finite sg c e) * 10 ^ s" by blast
  show ?thesis
    using m(1) dec_int_trunc [of sg c' e']
    by (simp add: get_redis_value_def to_decimal_def dp m(2) del: dec_int.simps dec_val.simps)
qed

subsection \<open>Division by a power of ten\<close>

text \<open>
  Dividing an integer whose significant digits fit the precision by \<open>10 ^ s\<close> is exact:
  the quotient has no remainder, the loop removes trailing zeros only, and the final
  rounding has nothing to round.
\<close>

lemma strip_zeros_spec:
  assumes "strip_zeros c x i = (c', x')" and "0 < c"
  shows "x \<le> x' \<and> c' * 10 ^ nat (x' - x) = c \<and> 0 < c' \<and> (x' < i \<longrightarrow> c' mod 10 \<noteq> 0)"
  using assms
proof (induction c x i rule: strip_zeros.induct)
  case (1 coeff expn ideal_exp)
  show ?case
  proof (cases "expn < ideal_exp \<and> coeff mod 10 = 0")
    case True
    then have rec: "strip_zeros (coeff div 10) (expn + 1) ideal_exp = (c', x')"
      using "1.prems"(1) by (subst (asm) strip_zeros.simps) simp
    have pos: "0 < coeff div 10" using True "1.prems"(2) by (auto simp: div_greater_zero_iff dvd_imp_le mod_eq_0_iff_dvd)
    from "1.IH" [OF True rec pos]
    have IH: "expn + 1 \<le> x'" "c' * 10 ^ nat (x' - (expn + 1)) = coeff div 10" "0 < c'"
      "x' < ideal_exp \<longrightarrow> c' mod 10 \<noteq> 0"
      by simp_all
    have "nat (x' - expn) = Suc (nat (x' - (expn + 1)))" using IH(1) by simp
    then have "c' * 10 ^ nat (x' - expn) = (coeff div 10) * 10"
      using IH(2) by simp
    also have "\<dots> = coeff" using True by (simp add: mod_eq_0_iff_dvd)
    finally show ?thesis using IH by simp
  next
    case False
    then have "strip_zeros coeff expn ideal_exp = (coeff, expn)"
      by (subst strip_zeros.simps) auto
    with "1.prems" False show ?thesis by auto
  qed
qed

lemma ndigits_pow10: "ndigits (10 ^ s) = Suc s"
proof -
  have "ndigits 1 = 1" by (subst ndigits.simps) simp
  with ndigits_mult_pow10 [of 1 s] show ?thesis by simp
qed

lemma div_pow10_core:
  fixes a u s :: nat and shift :: int
  assumes "int u + shift = int w + int s"
  shows "(if shift \<ge> 0
          then ((a * 10 ^ u * 10 ^ nat shift) div 10 ^ s, (a * 10 ^ u * 10 ^ nat shift) mod 10 ^ s)
          else (a * 10 ^ u div (10 ^ s * 10 ^ nat (- shift)), a * 10 ^ u mod (10 ^ s * 10 ^ nat (- shift))))
         = (a * 10 ^ w, 0)"
proof (cases "shift \<ge> 0")
  case True
  then have "u + nat shift = w + s" using assms by linarith
  then have eq: "a * 10 ^ u * 10 ^ nat shift = a * 10 ^ w * 10 ^ s"
    by (simp add: mult.assoc flip: power_add)
  show ?thesis unfolding if_P [OF True] eq by simp
next
  case False
  then have "u = w + (s + nat (- shift))" using assms by linarith
  then have eq: "a * 10 ^ u = a * 10 ^ w * (10 ^ s * 10 ^ nat (- shift))"
    by (simp add: mult.assoc flip: power_add)
  show ?thesis unfolding if_not_P [OF False] by (subst (1 2) eq) simp
qed

lemma div_finite_pow10:
  assumes a: "0 < a" "a < 10 ^ prec"
    and lo: "Etiny \<le> lo" "real (a * 10 ^ u) / 10 ^ s = real N * 10 powi lo"
    and top: "int (ndigits a) + int u - int s - int prec \<le> Etop"
  shows "\<exists>c' e'. div_finite sg (a * 10 ^ u) 0 (10 ^ s) 0 = Inr (Finite sg c' e') \<and>
           real c' * 10 powi e' = real (a * 10 ^ u) / 10 ^ s"
proof -
  let ?n = "a * 10 ^ u"
  define shift where "shift = int (ndigits (10 ^ s)) - int (ndigits ?n) + int prec + 1"
  define w where "w = prec + 2 - ndigits a"
  have da: "ndigits a \<le> prec" using a(2) prec_pos by (simp add: ndigits_le_iff)
  have L: "ndigits ?n = ndigits a + u" using a(1) by (rule ndigits_mult_pow10)
  have shift_eq: "shift = int s + 2 + int prec - int (ndigits a) - int u"
    by (simp add: shift_def ndigits_pow10 L)
  have bal: "int u + shift = int w + int s" using da by (simp add: shift_eq w_def)
  obtain c1 x1 where sz: "strip_zeros (a * 10 ^ w) (- shift) 0 = (c1, x1)"
    by (cases "strip_zeros (a * 10 ^ w) (- shift) 0")
  have unfold: "div_finite sg ?n 0 (10 ^ s) 0 = dec_fix (Finite sg c1 x1)"
    using a(1) div_pow10_core [OF bal, of a] sz
    by (simp add: div_finite_def Let_def flip: shift_def del: dec_fix.simps)
  from strip_zeros_spec [OF sz] a(1)
  have sp: "- shift \<le> x1" "c1 * 10 ^ nat (x1 + shift) = a * 10 ^ w" "0 < c1"
    "x1 < 0 \<longrightarrow> c1 mod 10 \<noteq> 0" by simp_all
  define J where "J = nat (x1 + shift)"
  have x1: "x1 = int J - shift" using sp(1) by (simp add: J_def)
  have val1: "real (a * 10 ^ w) * 10 powi (- shift) = real c1 * 10 powi x1"
    using sp(1,2) by (intro powi_shift) simp_all
  obtain m j where dec: "c1 = m * 10 ^ j" "0 < m" "m < 10 ^ prec"
  proof (cases "J \<le> w")
    case True
    then have "a * 10 ^ w = a * 10 ^ (w - J) * 10 ^ J"
      by (simp add: mult.assoc flip: power_add)
    with sp(2) have "c1 = a * 10 ^ (w - J)" by (simp add: J_def)
    with a that show ?thesis by blast
  next
    case False
    then have "c1 * 10 ^ J = c1 * 10 ^ (J - w) * 10 ^ w"
      by (simp add: mult.assoc flip: power_add)
    with sp(2) have "c1 * 10 ^ (J - w) = a" by (simp add: J_def)
    moreover have "c1 * 1 \<le> c1 * 10 ^ (J - w)" by (intro mult_le_mono2) simp
    ultimately have "c1 \<le> a" by simp
    with a(2) sp(3) that [of c1 0] show ?thesis by simp
  qed
  have dig: "int (ndigits c1) + int J = int (ndigits a) + int w"
  proof -
    have "ndigits (c1 * 10 ^ J) = ndigits c1 + J" using sp(3) by (rule ndigits_mult_pow10)
    moreover have "ndigits (a * 10 ^ w) = ndigits a + w" using a(1) by (rule ndigits_mult_pow10)
    ultimately have "ndigits c1 + J = ndigits a + w" using sp(2) by (simp add: J_def)
    then show ?thesis by linarith
  qed
  have "int (ndigits c1) = int (ndigits m) + int j"
    using ndigits_mult_pow10 [OF dec(2), of j] dec(1) by simp
  then have top': "int (ndigits m) + int j + x1 - int prec \<le> Etop"
    using dig x1 bal top by linarith
  have valn: "real c1 * 10 powi x1 = real ?n / 10 ^ s"
  proof -
    have "real (a * 10 ^ w) * 10 powi (- shift) = real a * (10 powi (int w) * 10 powi (- shift))"
      by (simp add: mult.assoc)
    also have "\<dots> = real a * 10 powi (int w - shift)"
      using power_int_add [of "10::real" "int w" "- shift"] by simp
    also have "int w - shift = int u - int s" using bal by simp
    also have "real a * 10 powi (int u - int s) = real ?n / 10 ^ s"
      by (simp add: power_int_diff)
    finally show ?thesis using val1 by simp
  qed
  have tiny: "Etiny \<le> x1"
  proof (cases "x1 < 0")
    case False
    then show ?thesis by (simp add: Etiny_def Emin_def prec_def)
  next
    case True
    with sp(4) have nd: "c1 mod 10 \<noteq> 0" by simp
    have "lo \<le> x1"
    proof (rule ccontr)
      assume "\<not> lo \<le> x1"
      define d where "d = nat (lo - x1)"
      have d: "0 < d" "lo = x1 + int d" using \<open>\<not> lo \<le> x1\<close> by (simp_all add: d_def)
      have "real c1 * 10 powi x1 = real N * 10 powi (x1 + int d)"
        using valn lo(2) d(2) by simp
      also have "\<dots> = real (N * 10 ^ d) * 10 powi x1"
        using power_int_add [of "10::real" x1 "int d"] by simp
      finally have "real c1 = real (N * 10 ^ d)" by simp
      then have "c1 = N * 10 ^ d" by (simp only: of_nat_eq_iff)
      with d(1) have "c1 mod 10 = 0" by (cases d) simp_all
      with nd show False by simp
    qed
    with lo(1) show ?thesis by simp
  qed
  from dec_fix_trailing_zeros [OF dec(2,3) tiny top', of sg]
  obtain c' e' where fx: "dec_fix (Finite sg c1 x1) = Inr (Finite sg c' e')"
    "x1 \<le> e'" "c' * 10 ^ nat (e' - x1) = c1"
    using dec(1) by auto
  have val2: "real c1 * 10 powi x1 = real c' * 10 powi e'"
    using fx(2,3) by (rule powi_shift)
  from valn val2 have "real c' * 10 powi e' = real ?n / 10 ^ s" by simp
  with unfold fx(1) show ?thesis by auto
qed

lemma get_python_value_str_int:
  assumes dp: "decimal_places self = int s"
    and dec: "nat \<bar>n\<bar> = a * 10 ^ u" "a < 10 ^ prec"
    and lo: "Etiny \<le> lo" "real (a * 10 ^ u) / 10 ^ s = real N * 10 powi lo"
    and top: "int (ndigits a) + int u - int s - int prec \<le> Etop"
  shows "\<exists>sg' c' e'. get_python_value self (str_int n) = Inr (Finite sg' c' e') \<and>
           dec_val (Finite sg' c' e') = of_int n / 10 ^ s"
proof -
  have unfold: "get_python_value self (str_int n) = div_finite (n < 0) (nat \<bar>n\<bar>) 0 (10 ^ s) 0"
    by (simp add: get_python_value_def Decimal_of_str_str_int dp dec_truediv_def
        dec_of_int_pow10) (simp add: dec_of_int_def)
  show ?thesis
  proof (cases "n = 0")
    case True
    have "dec_fix (Finite False 0 0) = Inr (Finite False 0 0)"
      by (rule dec_fix_exact) (simp_all add: Etiny_def Emin_def Etop_def Emax_def prec_def)
    moreover have "get_python_value self (str_int n) = div_finite False 0 0 (10 ^ s) 0"
      using unfold True by simp
    ultimately have "get_python_value self (str_int n) = Inr (Finite False 0 0)"
      by (simp add: div_finite_def del: dec_fix.simps)
    then show ?thesis using True by auto
  next
    case False
    then have apos: "0 < a" using dec(1) by (cases "a = 0") simp_all
    from div_finite_pow10 [OF apos dec(2) lo top, of "n < 0"]
    obtain c' e' where r: "div_finite (n < 0) (a * 10 ^ u) 0 (10 ^ s) 0 = Inr (Finite (n < 0) c' e')"
      "real c' * 10 powi e' = real (a * 10 ^ u) / 10 ^ s" by blast
    have "real (a * 10 ^ u) = \<bar>of_int n\<bar>" using dec(1) [symmetric] by simp
    then have "dec_val (Finite (n < 0) c' e') = of_int n / 10 ^ s"
      using r(2) by (simp add: mult.assoc)
    with r(1) unfold dec(1) show ?thesis by auto
  qed
qed

subsection \<open>The stored integer\<close>

lemma frac_digits_le_trunc:
  assumes "frac_digits_le s (Finite sg c e)"
  shows "of_int (trunc (dec_val (Finite sg c e) * 10 ^ s)) = dec_val (Finite sg c e) * 10 ^ s"
proof -
  let ?e = "e + int s"
  have scaled: "dec_val (Finite sg c e) * 10 ^ s = dec_val (Finite sg c ?e)"
    by (simp add: power_int_add)
  have "real_of_int \<lfloor>real c * 10 powi ?e\<rfloor> = real c * 10 powi ?e"
  proof (cases "0 \<le> ?e")
    case True
    then show ?thesis by (simp add: floor_coeff_powi power_int_def)
  next
    case False
    with assms have dvd: "10 ^ nat (- ?e) dvd c" by simp
    have d: "real (c div 10 ^ nat (- ?e)) = real c / real (10 ^ nat (- ?e))"
      using dvd by (rule real_of_nat_div)
    have v: "real c * 10 powi ?e = real c / real (10 ^ nat (- ?e))"
      using False by (simp add: power_int_def field_simps)
    show ?thesis unfolding v by (simp only: floor_divide_of_nat_eq of_int_of_nat_eq d)
  qed
  moreover have "0 \<le> real c * 10 powi ?e" by simp
  ultimately have "of_int (trunc (dec_val (Finite sg c ?e))) = dec_val (Finite sg c ?e)"
    by (cases sg) (simp_all add: trunc_minus trunc_nonneg del: of_nat_mult)
  then show ?thesis by (simp only: scaled)
qed

lemma stored_integer_abs:
  "nat \<bar>trunc (dec_val (Finite sg c e) * 10 ^ s)\<bar> =
     (if e + int s \<ge> 0 then c * 10 ^ nat (e + int s) else c div 10 ^ nat (- (e + int s)))"
proof -
  let ?e = "e + int s"
  define n where "n = trunc (dec_val (Finite sg c e) * 10 ^ s)"
  have "dec_val (Finite sg c e) * 10 ^ s = dec_val (Finite sg c ?e)"
    by (simp add: power_int_add)
  then have "Inr n = dec_int (Finite sg c ?e)"
    unfolding n_def dec_int_trunc by (simp only:)
  then have "nat \<bar>n\<bar> = (if ?e \<ge> 0 then c * 10 ^ nat ?e else c div 10 ^ nat (- ?e))"
    by (auto simp: Let_def abs_mult nat_mult_distrib nat_power_eq split: if_splits)
  then show ?thesis by (simp only: n_def)
qed

text \<open>
  Within the range of the theorems below the stored integer has at most 4300 digits.
\<close>

lemma stored_integer_digits_bound:
  assumes digits: "c < 10 ^ p" and p: "0 < p" and rng: "e + int s \<le> int k"
  shows "ndigits (nat \<bar>trunc (dec_val (Finite sg c e) * 10 ^ s)\<bar>) \<le> p + k"
proof -
  let ?e = "e + int s"
  let ?n = "nat \<bar>trunc (dec_val (Finite sg c e) * 10 ^ s)\<bar>"
  have "?n < 10 ^ (p + k)"
  proof (cases "?e \<ge> 0")
    case True
    then have n: "?n = c * 10 ^ nat ?e" by (simp only: stored_integer_abs if_True)
    have "nat ?e \<le> k" using rng by simp
    then have "(10::nat) ^ nat ?e \<le> 10 ^ k" by (intro power_increasing) simp_all
    with digits have "c * 10 ^ nat ?e < 10 ^ p * 10 ^ k"
      by (intro mult_less_le_imp_less) simp_all
    then show ?thesis using n by (simp only: power_add)
  next
    case False
    then have n: "?n = c div 10 ^ nat (- ?e)" by (simp only: stored_integer_abs if_False)
    have "c div 10 ^ nat (- ?e) \<le> c" by (rule div_le_dividend)
    also note digits
    also have "(10::nat) ^ p \<le> 10 ^ (p + k)" by (intro power_increasing) simp_all
    finally show ?thesis using n by (simp only:)
  qed
  then show ?thesis using p by (simp only: ndigits_le_iff add_gr_0 simp_thms)
qed

lemma stored_integer_digits:
  assumes "c < 10 ^ prec" and "e + int s \<le> 4272"
  shows "ndigits (nat \<bar>trunc (dec_val (Finite sg c e) * 10 ^ s)\<bar>) \<le> 4300"
proof -
  have "e + int s \<le> int 4272" using assms(2) by simp
  with assms(1) prec_pos
  have "ndigits (nat \<bar>trunc (dec_val (Finite sg c e) * 10 ^ s)\<bar>) \<le> prec + 4272"
    by (rule stored_integer_digits_bound)
  then show ?thesis by (simp add: prec_def)
qed

lemma stored_integer_decomposition:
  assumes digits: "c < 10 ^ prec" and rng: "Etiny \<le> e" "e + int s \<le> Etop"
    and n_def: "n = trunc (dec_val (Finite sg c e) * 10 ^ s)"
  shows "\<exists>a u N lo. nat \<bar>n\<bar> = a * 10 ^ u \<and> a < 10 ^ prec \<and>
           Etiny \<le> lo \<and> real (a * 10 ^ u) / 10 ^ s = real N * 10 powi lo \<and>
           int (ndigits a) + int u - int s - int prec \<le> Etop"
proof -
  let ?e = "e + int s"
  have abs_n: "nat \<bar>n\<bar> = (if ?e \<ge> 0 then c * 10 ^ nat ?e else c div 10 ^ nat (- ?e))"
    unfolding n_def by (rule stored_integer_abs)
  have Etop0: "0 \<le> Etop" by (simp add: Etop_def Emax_def prec_def)
  have dc: "ndigits c \<le> prec" using digits prec_pos by (simp add: ndigits_le_iff)
  show ?thesis
  proof (cases "?e \<ge> 0")
    case True
    have "int (ndigits c) + int (nat ?e) - int s - int prec \<le> Etop"
      using True rng dc by simp
    moreover have "nat \<bar>n\<bar> = c * 10 ^ nat ?e" using abs_n True by simp
    moreover have "real (c * 10 ^ nat ?e) / 10 ^ s = real c * 10 powi e"
    proof -
      have "real (c * 10 ^ nat ?e) / 10 ^ s = real c * (10 powi ?e / 10 powi (int s))"
        using True by (simp add: power_int_def)
      also have "10 powi ?e / 10 powi (int s) = (10::real) powi (?e - int s)"
        using power_int_diff [of "10::real" ?e "int s"] by simp
      finally show ?thesis by simp
    qed
    ultimately show ?thesis using digits rng(1) by blast
  next
    case False
    let ?a = "c div 10 ^ nat (- ?e)"
    have "?a \<le> c" by (rule div_le_dividend)
    from this digits have lt: "?a < 10 ^ prec" by (rule le_less_trans)
    then have "ndigits ?a \<le> prec" using prec_pos by (simp add: ndigits_le_iff)
    then have "int (ndigits ?a) + int 0 - int s - int prec \<le> Etop"
      using Etop0 by simp
    moreover have "nat \<bar>n\<bar> = ?a * 10 ^ 0" using abs_n False by simp
    moreover have "real (?a * 10 ^ 0) / 10 ^ s = real ?a * 10 powi (- int s)"
      by (simp add: power_int_minus field_simps)
    moreover have "Etiny \<le> - int s" using False rng(1) by simp
    ultimately show ?thesis using lt by blast
  qed
qed

section \<open>Properties of the store encoding\<close>

lemmas decimal_eval =
  get_redis_value_def get_python_value_def to_decimal_def decimal_descriptor_def
  dec_mul_def dec_truediv_def div_finite_def dec_of_int_def ndigits.simps
  round_half_even_def fix_nan_def prec_def Etiny_def Etop_def Emin_def Emax_def
  str_int_def digits_of_nat.simps digit_char_def Let_def strip_zeros.simps
  Decimal_of_str_def strip_def is_space_def split_sign_def parse_number_def parse_exp_def
  is_digit_def nat_of_digits_def digit_val_def parse_special_def lower_def
  char_of_def bit_Suc_0_iff

lemma example_parse:
  "Decimal_of_str ''12.345'' = Inr (Finite False 12345 (- 3))"
  "Decimal_of_str ''12.34'' = Inr (Finite False 1234 (- 2))"
  by (simp_all add: decimal_eval)

lemma example_to_store:
  "get_redis_value (decimal_descriptor 2) (DecimalValue (Finite False 12345 (- 3))) = Inr ''1234''"
  by (simp add: decimal_eval)

lemma example_from_store:
  "get_python_value (decimal_descriptor 2) ''1234'' = Inr (Finite False 1234 (- 2))"
  by (simp add: decimal_eval)

text \<open>
  Claim C2, as amended. For a finite decimal whose coefficient has at most 28 digits (the
  precision of the default context) and whose exponent \<open>e\<close> satisfies
  \<open>-1000026 \<le> e\<close> and \<open>e + s \<le> 4272\<close>, \<open>get_redis_value\<close> with scale \<open>s\<close> returns the
  decimal string of the integer obtained by truncating \<open>v * 10 ^ s\<close> towards zero: nothing
  is rounded. With \<open>decimal_places = 2\<close>, \<open>Decimal("12.345")\<close> is stored as \<open>"1234"\<close>, and
  \<open>"1234"\<close> is read back as \<open>Decimal("12.34")\<close>.

  The lower bound on \<open>e\<close> is the smallest exponent of the context. The bound on
  \<open>e + s\<close> keeps the stored integer within 4300 digits (lemma
  \<open>stored_integer_digits\<close>): current CPython versions refuse by default to turn a
  longer \<open>int\<close> into a string, a limit that \<open>str_int\<close> does not have, so within the
  bound the result is the same with and without it. Without that limit the statement
  holds up to \<open>e + s \<le> 999972\<close>, where the product reaches the overflow threshold of
  the context (lemma \<open>get_redis_value_exact\<close>).
\<close>

theorem to_store_truncates:
  "(decimal_places self = int s \<and> c < 10 ^ prec \<and> Etiny \<le> e \<and> e + int s \<le> 4272 \<longrightarrow>
      get_redis_value self (DecimalValue (Finite sg c e)) =
        Inr (str_int (trunc (dec_val (Finite sg c e) * 10 ^ s)))) \<and>
   Decimal_of_str ''12.345'' = Inr (Finite False 12345 (- 3)) \<and>
   get_redis_value (decimal_descriptor 2) (DecimalValue (Finite False 12345 (- 3))) = Inr ''1234'' \<and>
   get_python_value (decimal_descriptor 2) ''1234'' = Inr (Finite False 1234 (- 2)) \<and>
   Decimal_of_str ''12.34'' = Inr (Finite False 1234 (- 2))"
proof -
  have "e + int s \<le> Etop" if "e + int s \<le> 4272"
    using that by (simp add: Etop_def Emax_def prec_def)
  with get_redis_value_exact [of self s c e sg]
  have "decimal_places self = int s \<and> c < 10 ^ prec \<and> Etiny \<le> e \<and> e + int s \<le> 4272 \<longrightarrow>
      get_redis_value self (DecimalValue (Finite sg c e)) =
        Inr (str_int (trunc (dec_val (Finite sg c e) * 10 ^ s)))"
    by blast
  with example_parse example_to_store example_from_store show ?thesis by blast
qed

theorem to_store_truncates_witness:
  "decimal_places (decimal_descriptor 2) = int 2 \<and> (12345::nat) < 10 ^ prec \<and>
   Etiny \<le> - 3 \<and> - 3 + int 2 \<le> 4272 \<and>
   get_redis_value (decimal_descriptor 2) (DecimalValue (Finite False 12345 (- 3))) =
     Inr (str_int (trunc (dec_val (Finite False 12345 (- 3)) * 10 ^ 2))) \<and>
   trunc (dec_val (Finite False 12345 (- 3)) * 10 ^ 2) = 1234"
proof -
  have h: "decimal_places (decimal_descriptor 2) = int 2 \<and> (12345::nat) < 10 ^ prec \<and>
           Etiny \<le> - 3 \<and> - 3 + int 2 \<le> 4272"
    by (simp add: decimal_descriptor_def prec_def Etiny_def Emin_def)
  have t: "trunc (dec_val (Finite False 12345 (- 3)) * 10 ^ 2) = 1234"
    by (simp add: trunc_def)
  from to_store_truncates [of "decimal_descriptor 2" 2 12345 "- 3" False] h
  have "get_redis_value (decimal_descriptor 2) (DecimalValue (Finite False 12345 (- 3))) =
     Inr (str_int (trunc (dec_val (Finite False 12345 (- 3)) * 10 ^ 2)))"
    by blast
  with h t show ?thesis by blast
qed

text \<open>
  The claim as it was written fails for a coefficient of more than 28 digits: the
  product with \<open>10 ^ s\<close> is rounded to 28 digits before \<open>int\<close> truncates it. With scale 0,
  the 29-digit value \<open>0.99999999999999999999999999999\<close> is stored as \<open>"1"\<close>, where
  truncation gives \<open>"0"\<close>.
\<close>

theorem to_store_truncates_counterexample:
  "get_redis_value (decimal_descriptor 0)
     (DecimalValue (Finite False 99999999999999999999999999999 (- 29))) = Inr ''1'' \<and>
   str_int (trunc (dec_val (Finite False 99999999999999999999999999999 (- 29)) * 10 ^ 0)) = ''0''"
proof -
  have "trunc (dec_val (Finite False 99999999999999999999999999999 (- 29)) * 10 ^ 0) = 0"
    by (simp add: trunc_def)
  then have "str_int (trunc (dec_val (Finite False 99999999999999999999999999999 (- 29)) * 10 ^ 0))
      = ''0''"
    by (simp add: decimal_eval)
  moreover have "get_redis_value (decimal_descriptor 0)
     (DecimalValue (Finite False 99999999999999999999999999999 (- 29))) = Inr ''1''"
    by (simp add: decimal_eval)
  ultimately show ?thesis by blast
qed

text \<open>
  Claim C1, as amended. For a \<open>DecimalColumn\<close> with scale \<open>s\<close> and a
  finite decimal \<open>v\<close> whose coefficient has at most 28 digits and whose exponent \<open>e\<close>
  satisfies \<open>-1000026 \<le> e\<close> and \<open>e + s \<le> 4272\<close>: \<open>get_redis_value\<close> succeeds,
  \<open>get_python_value\<close> of its result succeeds with a finite decimal, and that decimal is
  equal in value to \<open>v\<close> truncated to \<open>s\<close> fractional digits; when \<open>v\<close> has at most \<open>s\<close>
  fractional digits it is equal in value to \<open>v\<close> itself.
\<close>

theorem roundtrip_within_precision:
  assumes dp: "decimal_places self = int s"
    and digits: "c < 10 ^ prec"
    and rng: "Etiny \<le> e" "e + int s \<le> 4272"
  shows "\<exists>r sg' c' e'.
           get_redis_value self (DecimalValue (Finite sg c e)) = Inr r \<and>
           get_python_value self r = Inr (Finite sg' c' e') \<and>
           dec_val (Finite sg' c' e') =
             of_int (trunc (dec_val (Finite sg c e) * 10 ^ s)) / 10 ^ s \<and>
           (frac_digits_le s (Finite sg c e) \<longrightarrow>
              dec_val (Finite sg' c' e') = dec_val (Finite sg c e))"
proof -
  define n where "n = trunc (dec_val (Finite sg c e) * 10 ^ s)"
  have top: "e + int s \<le> Etop" using rng(2) by (simp add: Etop_def Emax_def prec_def)
  have enc: "get_redis_value self (DecimalValue (Finite sg c e)) = Inr (str_int n)"
    unfolding n_def using dp digits rng(1) top by (rule get_redis_value_exact)
  from stored_integer_decomposition [OF digits rng(1) top n_def]
  obtain a u N lo where au: "nat \<bar>n\<bar> = a * 10 ^ u" "a < 10 ^ prec"
    "Etiny \<le> lo" "real (a * 10 ^ u) / 10 ^ s = real N * 10 powi lo"
    "int (ndigits a) + int u - int s - int prec \<le> Etop"
    by blast
  from get_python_value_str_int [OF dp au]
  obtain sg' c' e' where dec: "get_python_value self (str_int n) = Inr (Finite sg' c' e')"
    "dec_val (Finite sg' c' e') = of_int n / 10 ^ s" by blast
  have "dec_val (Finite sg' c' e') = dec_val (Finite sg c e)"
    if "frac_digits_le s (Finite sg c e)"
    using frac_digits_le_trunc [OF that] dec(2) by (simp add: n_def del: dec_val.simps)
  with enc dec show ?thesis unfolding n_def by blast
qed

theorem roundtrip_within_precision_witness:
  "decimal_places (decimal_descriptor 2) = int 2 \<and> (1234::nat) < 10 ^ prec \<and>
   Etiny \<le> - 2 \<and> - 2 + int 2 \<le> 4272 \<and>
   frac_digits_le 2 (Finite False 1234 (- 2)) \<and>
   (\<exists>r sg' c' e'.
      get_redis_value (decimal_descriptor 2) (DecimalValue (Finite False 1234 (- 2))) = Inr r \<and>
      get_python_value (decimal_descriptor 2) r = Inr (Finite sg' c' e') \<and>
      dec_val (Finite sg' c' e') = dec_val (Finite False 1234 (- 2)))"
proof -
  have h1: "decimal_places (decimal_descriptor 2) = int 2" by (simp add: decimal_descriptor_def)
  have h2: "(1234::nat) < 10 ^ prec" by (simp add: prec_def)
  have h3: "Etiny \<le> - 2" by (simp add: Etiny_def Emin_def prec_def)
  have h4: "- 2 + int 2 \<le> (4272::int)" by simp
  have h6: "frac_digits_le 2 (Finite False 1234 (- 2))" by simp
  from roundtrip_within_precision [OF h1 h2 h3 h4, of False] h6
  have "\<exists>r sg' c' e'.
      get_redis_value (decimal_descriptor 2) (DecimalValue (Finite False 1234 (- 2))) = Inr r \<and>
      get_python_value (decimal_descriptor 2) r = Inr (Finite sg' c' e') \<and>
      dec_val (Finite sg' c' e') = dec_val (Finite False 1234 (- 2))"
    by blast
  with h1 h2 h3 h4 h6 show ?thesis by blast
qed

text \<open>
  The claim as it was written fails for a coefficient of more than 28 digits. With scale
  2, the value \<open>123456789012345678901234567.89\<close> has two fractional digits and 29 digits
  in all; it is stored as \<open>"12345678901234567890123456790"\<close> and read back as
  \<open>123456789012345678901234567.9\<close>, which is a different number.
\<close>

theorem roundtrip_counterexample:
  "frac_digits_le 2 (Finite False 12345678901234567890123456789 (- 2)) \<and>
   get_redis_value (decimal_descriptor 2)
     (DecimalValue (Finite False 12345678901234567890123456789 (- 2)))
       = Inr ''12345678901234567890123456790'' \<and>
   get_python_value (decimal_descriptor 2) ''12345678901234567890123456790''
       = Inr (Finite False 1234567890123456789012345679 (- 1)) \<and>
   dec_val (Finite False 1234567890123456789012345679 (- 1))
       \<noteq> dec_val (Finite False 12345678901234567890123456789 (- 2))"
proof -
  have "get_redis_value (decimal_descriptor 2)
     (DecimalValue (Finite False 12345678901234567890123456789 (- 2)))
       = Inr ''12345678901234567890123456790''"
    by (simp add: decimal_eval)
  moreover have "get_python_value (decimal_descriptor 2) ''12345678901234567890123456790''
       = Inr (Finite False 1234567890123456789012345679 (- 1))"
    by (simp add: decimal_eval)
  moreover have "dec_val (Finite False 1234567890123456789012345679 (- 1))
       \<noteq> dec_val (Finite False 12345678901234567890123456789 (- 2))"
    by simp
  ultimately show ?thesis by simp
qed

lemma Decimal_of_str_error: "Decimal_of_str raw = Inl err \<Longrightarrow> err = InvalidOperation"
  by (auto simp: Decimal_of_str_def Let_def split: prod.splits option.splits)

lemma to_decimal_error: "to_decimal v = Inl err \<Longrightarrow> err = InvalidOperation"
  by (cases v) (auto simp: to_decimal_def dest: Decimal_of_str_error)

text \<open>
  Claim C8, as amended. With a non-negative scale: \<open>get_python_value\<close> raises
  \<open>InvalidOperation\<close> on every raw string that \<open>Decimal\<close> does not accept, and on a
  signaling NaN; the special values that \<open>Decimal\<close> does accept are not rejected: a quiet
  NaN is returned as a NaN and an infinity as an infinity. \<open>get_redis_value\<close> fails on every
  input that does not convert to a finite decimal: with \<open>InvalidOperation\<close> when the
  conversion itself fails or gives a signaling NaN, with \<open>ValueError\<close> for a quiet NaN and
  with \<open>OverflowError\<close> for an infinity.
\<close>

theorem conversion_failures:
  assumes dp: "decimal_places self = int s"
  shows "(Decimal_of_str raw = Inl err \<longrightarrow> get_python_value self raw = Inl InvalidOperation) \<and>
         (Decimal_of_str raw = Inr (NaN sg True p) \<longrightarrow>
            get_python_value self raw = Inl InvalidOperation) \<and>
         (Decimal_of_str raw = Inr (NaN sg False p) \<longrightarrow>
            get_python_value self raw = Inr (NaN sg False (p mod 10 ^ prec))) \<and>
         (Decimal_of_str raw = Inr (Infinity sg) \<longrightarrow>
            get_python_value self raw = Inr (Infinity sg)) \<and>
         (to_decimal v = Inl err \<longrightarrow> get_redis_value self v = Inl InvalidOperation) \<and>
         (to_decimal v = Inr (NaN sg True p) \<longrightarrow> get_redis_value self v = Inl InvalidOperation) \<and>
         (to_decimal v = Inr (NaN sg False p) \<longrightarrow> get_redis_value self v = Inl ValueError) \<and>
         (to_decimal v = Inr (Infinity sg) \<longrightarrow> get_redis_value self v = Inl OverflowError)"
  using Decimal_of_str_error [of raw err] to_decimal_error [of v err]
  by (simp add: get_python_value_def get_redis_value_def dp dec_of_int_pow10 dec_truediv_def
      dec_mul_def fix_nan_def)

theorem conversion_failures_witness:
  "decimal_places (decimal_descriptor 2) = int 2 \<and>
   Decimal_of_str ''12,34'' = Inl InvalidOperation \<and>
   get_python_value (decimal_descriptor 2) ''12,34'' = Inl InvalidOperation \<and>
   to_decimal (OtherValue ''None'') = Inl InvalidOperation \<and>
   get_redis_value (decimal_descriptor 2) (OtherValue ''None'') = Inl InvalidOperation \<and>
   to_decimal (OtherValue ''nan'') = Inr (NaN False False 0) \<and>
   get_redis_value (decimal_descriptor 2) (OtherValue ''nan'') = Inl ValueError \<and>
   to_decimal (OtherValue ''inf'') = Inr (Infinity False) \<and>
   get_redis_value (decimal_descriptor 2) (OtherValue ''inf'') = Inl OverflowError"
proof -
  have h: "decimal_places (decimal_descriptor 2) = int 2" by (simp add: decimal_descriptor_def)
  have a: "Decimal_of_str ''12,34'' = Inl InvalidOperation" by (simp add: decimal_eval)
  have b: "to_decimal (OtherValue ''None'') = Inl InvalidOperation" by (simp add: decimal_eval)
  have c: "to_decimal (OtherValue ''nan'') = Inr (NaN False False 0)" by (simp add: decimal_eval)
  have d: "to_decimal (OtherValue ''inf'') = Inr (Infinity False)" by (simp add: decimal_eval)
  note C = conversion_failures [OF h]
  from C [of "''12,34''" InvalidOperation] a
  have a': "get_python_value (decimal_descriptor 2) ''12,34'' = Inl InvalidOperation" by blast
  from C [where v = "OtherValue ''None''" and err = InvalidOperation] b
  have b': "get_redis_value (decimal_descriptor 2) (OtherValue ''None'') = Inl InvalidOperation"
    by blast
  from C [where v = "OtherValue ''nan''" and sg = False and p = 0] c
  have c': "get_redis_value (decimal_descriptor 2) (OtherValue ''nan'') = Inl ValueError"
    by blast
  from C [where v = "OtherValue ''inf''" and sg = False] d
  have d': "get_redis_value (decimal_descriptor 2) (OtherValue ''inf'') = Inl OverflowError"
    by blast
  from h a a' b b' c c' d d' show ?thesis by blast
qed

text \<open>
  The claim as it was written fails for the raw string \<open>"NaN"\<close>, which is not a number
  and is decoded without any error, to a NaN.
\<close>

theorem conversion_failures_counterexample:
  "get_python_value (decimal_descriptor 2) ''NaN'' = Inr (NaN False False 0)"
  by (simp add: decimal_eval)

end
